theory Spec2Isabelle
  imports Complex_Main "HOL-Library.List_Lexorder"
begin

section \<open>JavaScript values that reach the firmware service\<close>

text \<open>
  A JavaScript string is a sequence of UTF-16 code units; a code unit is a natural number
  below 65536. \<open>js\<close> writes a string of the program text, which is ASCII, as such a
  sequence.
\<close>

type_synonym code_unit = nat

type_synonym jstring = "code_unit list"

definition js :: "string \<Rightarrow> jstring" where
  "js s = map of_char s"

text \<open>
  A JavaScript number is a double: not-a-number, an infinity, or a finite value, which is
  the rational number it denotes. The two zeros are one value here; nothing in the service
  tells them apart.
\<close>

datatype number = NaN | PosInfinity | NegInfinity | Finite rat

text \<open>\<^verbatim>\<open>response.json()\<close> yields an arbitrary JSON value, and the cache is a
  \<^verbatim>\<open>Map<string, any>\<close>.\<close>

datatype json =
    JNull
  | JBool bool
  | JNumber number
  | JString jstring
  | JArray "json list"
  | JObject "(jstring \<times> json) list"

text \<open>A JavaScript value is a JSON value or \<^verbatim>\<open>undefined\<close> (\<open>None\<close>).\<close>

type_synonym jsval = "json option"

text \<open>Every value thrown in the service is an \<^verbatim>\<open>Error\<close> object; only its
  \<^verbatim>\<open>message\<close> is ever read.\<close>

datatype js_error =
    Error jstring
  | TypeError jstring
  | SyntaxError jstring

fun message :: "js_error \<Rightarrow> jstring" where
  "message (Error m) = m"
| "message (TypeError m) = m"
| "message (SyntaxError m) = m"

text \<open>\<^verbatim>\<open>ToBoolean\<close>: what \<^verbatim>\<open>if (v)\<close>, \<^verbatim>\<open>v || d\<close> and
  \<^verbatim>\<open>filter(Boolean)\<close> test.\<close>

fun truthy_number :: "number \<Rightarrow> bool" where
  "truthy_number NaN = False"
| "truthy_number (Finite q) = (q \<noteq> 0)"
| "truthy_number _ = True"

fun truthy :: "json \<Rightarrow> bool" where
  "truthy JNull = False"
| "truthy (JBool b) = b"
| "truthy (JNumber n) = truthy_number n"
| "truthy (JString s) = (s \<noteq> [])"
| "truthy (JArray _) = True"
| "truthy (JObject _) = True"

text \<open>
  What the service takes from the JavaScript engine and what Unicode tables or the
  implementation decide: the case conversions of strings, the collation behind
  \<^verbatim>\<open>localeCompare\<close>, and the digits \<^verbatim>\<open>Number.prototype.toString\<close> prints for a
  finite number that is not a safe integer. They are parameters of the model.
\<close>

record host =
  toUpperCase :: "jstring \<Rightarrow> jstring"
  toLowerCase :: "jstring \<Rightarrow> jstring"
  localeCompare :: "jstring \<Rightarrow> jstring \<Rightarrow> int"
  number_repr :: "rat \<Rightarrow> jstring"

subsection \<open>String helpers\<close>

text \<open>\<^verbatim>\<open>s.includes(sub)\<close>\<close>

fun str_includes :: "jstring \<Rightarrow> jstring \<Rightarrow> bool" where
  "str_includes [] sub = (sub = [])"
| "str_includes (c # cs) sub = (take (length sub) (c # cs) = sub \<or> str_includes cs sub)"

text \<open>\<^verbatim>\<open>xs.join(sep)\<close>\<close>

fun join :: "jstring \<Rightarrow> jstring list \<Rightarrow> jstring" where
  "join sep [] = []"
| "join sep [x] = x"
| "join sep (x # y # ys) = x @ sep @ join sep (y # ys)"

text \<open>Whether the code unit \<open>x\<close> is directly followed by \<open>y\<close> somewhere in a
  string.\<close>

fun has_pair :: "code_unit \<Rightarrow> code_unit \<Rightarrow> jstring \<Rightarrow> bool" where
  "has_pair x y [] = False"
| "has_pair x y [a] = False"
| "has_pair x y (a # b # cs) = ((a = x \<and> b = y) \<or> has_pair x y (b # cs))"

text \<open>Decimal digits of a natural number, as a template literal prints it; 48 is the
  digit 0.\<close>

definition digit_char :: "nat \<Rightarrow> code_unit" where
  "digit_char d = 48 + d mod 10"

fun digits :: "nat \<Rightarrow> jstring" where
  "digits n = (if n < 10 then [digit_char n] else digits (n div 10) @ [digit_char (n mod 10)])"

declare digits.simps [simp del]

text \<open>The decimal digits of an integer, with a minus sign (45) when it is negative.\<close>

definition int_toString :: "int \<Rightarrow> jstring" where
  "int_toString i = (if i < 0 then 45 # digits (nat (- i)) else digits (nat i))"

text \<open>\<^verbatim>\<open>Number.prototype.toString\<close>. A safe integer (a whole number of magnitude at
  most \<open>2\<^sup>5\<^sup>3 - 1\<close>) is printed with all its decimal digits; for every other finite
  number the digits are those the engine chooses.\<close>

definition is_safe_integer :: "rat \<Rightarrow> bool" where
  "is_safe_integer q = (q = of_int \<lfloor>q\<rfloor> \<and> \<bar>q\<bar> \<le> 9007199254740991)"

fun Number_toString :: "host \<Rightarrow> number \<Rightarrow> jstring" where
  "Number_toString h NaN = js ''NaN''"
| "Number_toString h PosInfinity = js ''Infinity''"
| "Number_toString h NegInfinity = js ''-Infinity''"
| "Number_toString h (Finite q) =
     (if is_safe_integer q then int_toString \<lfloor>q\<rfloor> else number_repr h q)"

section \<open>The network and the service state\<close>

text \<open>A response of \<^verbatim>\<open>fetch\<close>: the status line and what \<^verbatim>\<open>response.json()\<close>
  resolves to (a parsed value, or the \<^verbatim>\<open>SyntaxError\<close> it rejects with).\<close>

record response =
  status :: nat
  statusText :: jstring
  json_body :: "js_error + json"

text \<open>\<^verbatim>\<open>response.ok\<close> is true exactly for a status in the range 200 to 299.\<close>

definition ok :: "response \<Rightarrow> bool" where
  "ok r = (200 \<le> status r \<and> status r \<le> 299)"

text \<open>The remote side at the moment of one call: a URL either gets a response or the
  request is rejected (transport failure).\<close>

type_synonym network = "jstring \<Rightarrow> js_error + response"

text \<open>The service object: its private cache, plus two logs that make the effects
  observable: the URLs handed to \<^verbatim>\<open>fetch\<close> and the lines written with
  \<^verbatim>\<open>console.error\<close>.\<close>

record service =
  cache :: "jstring \<rightharpoonup> json"
  requests :: "jstring list"
  console :: "(jstring \<times> js_error) list"

definition console_error :: "jstring \<Rightarrow> js_error \<Rightarrow> service \<Rightarrow> service" where
  "console_error label e s = s\<lparr>console := console s @ [(label, e)]\<rparr>"

definition baseUrl :: jstring where
  "baseUrl = js ''https://fw-update.ubnt.com/api''"

definition firmwareEndpoint :: jstring where
  "firmwareEndpoint = js ''/firmware''"

definition firmwareLatestEndpoint :: jstring where
  "firmwareLatestEndpoint = js ''/firmware-latest''"

section \<open>The cached fetch\<close>

definition getCacheKey :: "jstring \<Rightarrow> jstring" where
  "getCacheKey url = url"

text \<open>\<^verbatim>\<open>this.cache.get(key) || null\<close>: a missing key gives \<^verbatim>\<open>undefined\<close>, and
  every falsy value is replaced by \<^verbatim>\<open>null\<close>.\<close>

definition getCached :: "service \<Rightarrow> jstring \<Rightarrow> json" where
  "getCached s key =
     (case cache s key of
        None \<Rightarrow> JNull
      | Some v \<Rightarrow> (if truthy v then v else JNull))"

definition setCache :: "jstring \<Rightarrow> json \<Rightarrow> service \<Rightarrow> service" where
  "setCache key data s = s\<lparr>cache := (cache s)(key \<mapsto> data)\<rparr>"

definition cachedFetch :: "network \<Rightarrow> jstring \<Rightarrow> service \<Rightarrow> (js_error + json) \<times> service" where
  "cachedFetch net url s =
     (let cacheKey = getCacheKey url;
          cached = getCached s cacheKey
      in if truthy cached then (Inr cached, s)
         else
           (let s1 = s\<lparr>requests := requests s @ [url]\<rparr> in
            case net url of
              Inl e \<Rightarrow> (Inl e, s1)
            | Inr response \<Rightarrow>
                if \<not> ok response then
                  (Inl (Error (js ''Failed to fetch: '' @ digits (status response) @ js '' ''
                               @ statusText response)), s1)
                else
                  (case json_body response of
                     Inl e \<Rightarrow> (Inl e, s1)
                   | Inr data \<Rightarrow> (Inr data, setCache cacheKey data s1))))"

section \<open>The query builder\<close>

datatype operator = Eq | Ne | Gt | Gte | Lt | Lte | Like | In

fun operator_string :: "operator \<Rightarrow> jstring" where
  "operator_string Eq = js ''eq''"
| "operator_string Ne = js ''ne''"
| "operator_string Gt = js ''gt''"
| "operator_string Gte = js ''gte''"
| "operator_string Lt = js ''lt''"
| "operator_string Lte = js ''lte''"
| "operator_string Like = js ''like''"
| "operator_string In = js ''in''"

text \<open>The interface \<^verbatim>\<open>FilterCondition\<close>; its fields \<^verbatim>\<open>field\<close>,
  \<^verbatim>\<open>operator\<close> and \<^verbatim>\<open>value\<close> carry the prefix \<open>cond\<close>.\<close>

record FilterCondition =
  cond_field :: jstring
  cond_operator :: operator
  cond_value :: jstring

text \<open>The interface \<^verbatim>\<open>FirmwareFilters\<close>; an optional field that is absent is
  \<open>None\<close>. The field \<^verbatim>\<open>sort\<close> is \<open>sort_param\<close> here, since \<open>sort\<close> is the
  sorting function of lists.\<close>

record FirmwareFilters =
  product :: "jstring option"
  platform :: "jstring option"
  channel :: "jstring option"
  version :: "jstring option"
  limit :: "number option"
  offset :: "number option"
  sort_param :: "jstring option"

text \<open>One condition in the grammar of the remote side, as the template in
  \<^verbatim>\<open>buildFilterQuery\<close> prints it.\<close>

definition condition_fragment :: "FilterCondition \<Rightarrow> jstring" where
  "condition_fragment condition =
     js ''filter='' @ operator_string (cond_operator condition) @ js ''~~''
     @ cond_field condition @ js ''~~'' @ cond_value condition"

definition buildFilterQuery :: "FilterCondition list \<Rightarrow> jstring" where
  "buildFilterQuery conditions = join (js ''&'') (map condition_fragment conditions)"

text \<open>\<^verbatim>\<open>value.toString()\<close> for the values a parameter can hold. An array prints its
  elements separated by commas, \<^verbatim>\<open>null\<close> elements as nothing.\<close>

fun js_toString :: "host \<Rightarrow> json \<Rightarrow> jstring" where
  "js_toString h JNull = js ''null''"
| "js_toString h (JBool b) = (if b then js ''true'' else js ''false'')"
| "js_toString h (JNumber n) = Number_toString h n"
| "js_toString h (JString s) = s"
| "js_toString h (JArray xs) =
     join (js '','') (map (\<lambda>x. if x = JNull then [] else js_toString h x) xs)"
| "js_toString h (JObject _) = js ''[object Object]''"

text \<open>
  The \<^verbatim>\<open>application/x-www-form-urlencoded\<close> serializer behind
  \<^verbatim>\<open>URLSearchParams.toString()\<close>. The string is read as Unicode scalar values, a
  surrogate without its partner as U+FFFD, and encoded in UTF-8. A byte that is a letter,
  a digit or one of \<^verbatim>\<open>* - . _\<close> (42, 45, 46, 95) stands for itself, a space (32)
  becomes a plus sign (43), and every other byte a percent sign (37) with two upper-case
  hexadecimal digits.
\<close>

definition is_lead_surrogate :: "code_unit \<Rightarrow> bool" where
  "is_lead_surrogate u = (55296 \<le> u \<and> u \<le> 56319)"

definition is_trail_surrogate :: "code_unit \<Rightarrow> bool" where
  "is_trail_surrogate u = (56320 \<le> u \<and> u \<le> 57343)"

fun scalar_values :: "jstring \<Rightarrow> nat list" where
  "scalar_values [] = []"
| "scalar_values [u] =
     (if is_lead_surrogate u \<or> is_trail_surrogate u then [65533] else [u])"
| "scalar_values (u # t # us) =
     (if is_lead_surrogate u \<and> is_trail_surrogate t
      then (65536 + (u - 55296) * 1024 + (t - 56320)) # scalar_values us
      else if is_lead_surrogate u \<or> is_trail_surrogate u
      then 65533 # scalar_values (t # us)
      else u # scalar_values (t # us))"

definition utf8_bytes :: "nat \<Rightarrow> nat list" where
  "utf8_bytes c =
     (if c < 128 then [c]
      else if c < 2048 then [192 + c div 64, 128 + c mod 64]
      else if c < 65536 then [224 + c div 4096, 128 + (c div 64) mod 64, 128 + c mod 64]
      else [240 + c div 262144, 128 + (c div 4096) mod 64, 128 + (c div 64) mod 64,
            128 + c mod 64])"

definition urlencoded_plain :: "nat \<Rightarrow> bool" where
  "urlencoded_plain b =
     (b = 42 \<or> b = 45 \<or> b = 46 \<or> b = 95 \<or> (48 \<le> b \<and> b \<le> 57)
      \<or> (65 \<le> b \<and> b \<le> 90) \<or> (97 \<le> b \<and> b \<le> 122))"

definition hex_char :: "nat \<Rightarrow> code_unit" where
  "hex_char n = (if n mod 16 < 10 then 48 + n mod 16 else 55 + n mod 16)"

definition urlencode_byte :: "nat \<Rightarrow> jstring" where
  "urlencode_byte b =
     (if b = 32 then [43]
      else if urlencoded_plain b then [b]
      else [37, hex_char (b div 16), hex_char (b mod 16)])"

definition urlencode :: "jstring \<Rightarrow> jstring" where
  "urlencode s = concat (map urlencode_byte (concat (map utf8_bytes (scalar_values s))))"

definition URLSearchParams_toString :: "(jstring \<times> jstring) list \<Rightarrow> jstring" where
  "URLSearchParams_toString ps =
     join (js ''&'') (map (\<lambda>(k, v). urlencode k @ js ''='' @ urlencode v) ps)"

text \<open>\<^verbatim>\<open>buildQueryParams\<close>: the entries of \<^verbatim>\<open>params\<close> in insertion order; a
  value that is \<^verbatim>\<open>undefined\<close>, \<^verbatim>\<open>null\<close> or the empty string is skipped.\<close>

definition buildQueryParams :: "host \<Rightarrow> (jstring \<times> jsval) list \<Rightarrow> jstring" where
  "buildQueryParams h params =
     URLSearchParams_toString
       (concat (map (\<lambda>(key, v).
          (case v of
             None \<Rightarrow> []
           | Some x \<Rightarrow> (if x \<noteq> JNull \<and> x \<noteq> JString [] then [(key, js_toString h x)] else [])))
          params))"

text \<open>\<^verbatim>\<open>filters.limit || 50\<close>: the number when it is present and truthy, else the
  default.\<close>

definition number_or :: "number option \<Rightarrow> number \<Rightarrow> json" where
  "number_or v d = (case v of None \<Rightarrow> JNumber d
                    | Some n \<Rightarrow> (if truthy (JNumber n) then JNumber n else JNumber d))"

text \<open>The conditions \<^verbatim>\<open>fetchFirmware\<close> collects: the additional ones first, then one
  \<^verbatim>\<open>eq\<close> condition for each of product, platform and channel that is truthy
  (present and not the empty string).\<close>

definition firmwareConditions :: "FirmwareFilters \<Rightarrow> FilterCondition list \<Rightarrow> FilterCondition list" where
  "firmwareConditions filters additionalConditions =
     additionalConditions
     @ (case product filters of
          None \<Rightarrow> []
        | Some v \<Rightarrow> (if truthy (JString v)
                     then [\<lparr>cond_field = js ''product'', cond_operator = Eq, cond_value = v\<rparr>]
                     else []))
     @ (case platform filters of
          None \<Rightarrow> []
        | Some v \<Rightarrow> (if truthy (JString v)
                     then [\<lparr>cond_field = js ''platform'', cond_operator = Eq, cond_value = v\<rparr>]
                     else []))
     @ (case channel filters of
          None \<Rightarrow> []
        | Some v \<Rightarrow> (if truthy (JString v)
                     then [\<lparr>cond_field = js ''channel'', cond_operator = Eq, cond_value = v\<rparr>]
                     else []))"

definition firmwareQueryString :: "host \<Rightarrow> FirmwareFilters \<Rightarrow> FilterCondition list \<Rightarrow> jstring" where
  "firmwareQueryString h filters additionalConditions =
     (let filterQuery = buildFilterQuery (firmwareConditions filters additionalConditions);
          params = buildQueryParams h
            [(js ''limit'', Some (number_or (limit filters) (Finite 50))),
             (js ''offset'', Some (number_or (offset filters) (Finite 0))),
             (js ''sort'', map_option JString (sort_param filters))]
      in join (js ''&'') (filter (\<lambda>x. truthy (JString x)) [filterQuery, params]))"

definition firmwareUrl :: "host \<Rightarrow> FirmwareFilters \<Rightarrow> FilterCondition list \<Rightarrow> jstring" where
  "firmwareUrl h filters additionalConditions =
     (let queryString = firmwareQueryString h filters additionalConditions
      in baseUrl @ firmwareEndpoint
         @ (if truthy (JString queryString) then js ''?'' @ queryString else []))"

section \<open>The service operations\<close>

definition fetchFirmware ::
  "host \<Rightarrow> FirmwareFilters \<Rightarrow> FilterCondition list \<Rightarrow> network \<Rightarrow> service
     \<Rightarrow> (js_error + json) \<times> service" where
  "fetchFirmware h filters additionalConditions net s =
     (case cachedFetch net (firmwareUrl h filters additionalConditions) s of
        (Inl error, s') \<Rightarrow> (Inl error, console_error (js ''Error fetching firmware:'') error s')
      | (Inr r, s') \<Rightarrow> (Inr r, s'))"

definition fetchLatestFirmware :: "network \<Rightarrow> service \<Rightarrow> (js_error + json) \<times> service" where
  "fetchLatestFirmware net s =
     (case cachedFetch net (baseUrl @ firmwareLatestEndpoint) s of
        (Inl error, s') \<Rightarrow>
          (Inl error, console_error (js ''Error fetching latest firmware:'') error s')
      | (Inr r, s') \<Rightarrow> (Inr r, s'))"

text \<open>
  \<^verbatim>\<open>String.prototype.trim\<close> removes white space and line terminators from both ends:
  tab, line feed, vertical tab, form feed, carriage return, space, U+00A0, U+1680, U+2000
  to U+200A, U+2028, U+2029, U+202F, U+205F, U+3000 and U+FEFF.
\<close>

definition is_whitespace :: "code_unit \<Rightarrow> bool" where
  "is_whitespace u =
     ((9 \<le> u \<and> u \<le> 13) \<or> u = 32 \<or> u = 160 \<or> u = 5760 \<or> (8192 \<le> u \<and> u \<le> 8202)
      \<or> u = 8232 \<or> u = 8233 \<or> u = 8239 \<or> u = 8287 \<or> u = 12288 \<or> u = 65279)"

definition trim :: "jstring \<Rightarrow> jstring" where
  "trim s = rev (dropWhile is_whitespace (rev (dropWhile is_whitespace s)))"

definition searchFirmware ::
  "host \<Rightarrow> jstring \<Rightarrow> FirmwareFilters \<Rightarrow> network \<Rightarrow> service \<Rightarrow> (js_error + json) \<times> service" where
  "searchFirmware h searchTerm filters net s =
     (let conditions =
            (if truthy (JString (trim searchTerm))
             then [\<lparr>cond_field = js ''product'', cond_operator = Like,
                    cond_value = js ''*'' @ searchTerm @ js ''*''\<rparr>]
             else [])
      in fetchFirmware h filters conditions net s)"

definition getFirmwareById :: "jstring \<Rightarrow> network \<Rightarrow> service \<Rightarrow> (js_error + json) \<times> service" where
  "getFirmwareById ident net s =
     (let url = baseUrl @ firmwareEndpoint @ js ''/'' @ ident in
      case cachedFetch net url s of
        (Inr r, s') \<Rightarrow> (Inr r, s')
      | (Inl error, s') \<Rightarrow>
          if str_includes (message error) (js ''404'') then (Inr JNull, s')
          else (Inl error, console_error (js ''Error fetching firmware by ID:'') error s'))"

subsection \<open>Filter values\<close>

text \<open>Reading a property \<^verbatim>\<open>v.name\<close>: \<^verbatim>\<open>undefined\<close> and \<^verbatim>\<open>null\<close> throw, an
  object gives the value of the key (the last one, when the JSON text repeated it) or
  \<^verbatim>\<open>undefined\<close>, and any other value has none of the properties read here.\<close>

fun get_property :: "jsval \<Rightarrow> jstring \<Rightarrow> js_error + jsval" where
  "get_property None name =
     Inl (TypeError (js ''Cannot read properties of undefined (reading '' @ name @ js '')''))"
| "get_property (Some JNull) name =
     Inl (TypeError (js ''Cannot read properties of null (reading '' @ name @ js '')''))"
| "get_property (Some (JObject props)) name = Inr (map_of (rev props) name)"
| "get_property (Some _) name = Inr None"

text \<open>\<^verbatim>\<open>firmware.map(f)\<close>: only an array has the method; the callback runs on the
  elements in order and the first error ends the call.\<close>

fun map_elements :: "(json \<Rightarrow> js_error + jsval) \<Rightarrow> json list \<Rightarrow> js_error + jsval list" where
  "map_elements f [] = Inr []"
| "map_elements f (x # xs) =
     (case f x of
        Inl e \<Rightarrow> Inl e
      | Inr y \<Rightarrow> (case map_elements f xs of Inl e \<Rightarrow> Inl e | Inr ys \<Rightarrow> Inr (y # ys)))"

fun array_map :: "(json \<Rightarrow> js_error + jsval) \<Rightarrow> jsval \<Rightarrow> js_error + jsval list" where
  "array_map f (Some (JArray xs)) = map_elements f xs"
| "array_map f _ = Inl (TypeError (js ''map is not a function''))"

text \<open>\<^verbatim>\<open>SameValueZero\<close>, the equality of a \<^verbatim>\<open>Set\<close>: primitive values are compared
  by value, while two arrays or objects taken from different places of a parsed document
  are never the same object.\<close>

fun sameValueZero :: "jsval \<Rightarrow> jsval \<Rightarrow> bool" where
  "sameValueZero None None = True"
| "sameValueZero (Some (JArray _)) _ = False"
| "sameValueZero (Some (JObject _)) _ = False"
| "sameValueZero (Some a) (Some b) = (a = b)"
| "sameValueZero _ _ = False"

text \<open>\<^verbatim>\<open>Array.from(new Set(xs))\<close>: the values in the order of their first
  occurrence.\<close>

definition set_add :: "jsval list \<Rightarrow> jsval \<Rightarrow> jsval list" where
  "set_add seen x = (if list_ex (\<lambda>y. sameValueZero y x) seen then seen else seen @ [x])"

definition new_Set :: "jsval list \<Rightarrow> jsval list" where
  "new_Set xs = foldl set_add [] xs"

text \<open>The comparator \<^verbatim>\<open>(a, b) => a.toLowerCase().localeCompare(b.toLowerCase())\<close>. A
  value that is not a string has no \<^verbatim>\<open>toLowerCase\<close> and the call throws.\<close>

fun compareLowerCase :: "host \<Rightarrow> json \<Rightarrow> json \<Rightarrow> js_error + int" where
  "compareLowerCase h (JString a) (JString b) =
     Inr (localeCompare h (toLowerCase h a) (toLowerCase h b))"
| "compareLowerCase h _ _ = Inl (TypeError (js ''toLowerCase is not a function''))"

text \<open>\<^verbatim>\<open>toSorted(compare)\<close>: a stable sort. \<^verbatim>\<open>undefined\<close> elements go last
  without a call of the comparator, the others are ordered by it, and an error of the
  comparator ends the sort. The sort is an insertion from the right, which puts an element
  before the first one it does not exceed.\<close>

fun insert_by :: "('a \<Rightarrow> 'a \<Rightarrow> js_error + int) \<Rightarrow> 'a \<Rightarrow> 'a list \<Rightarrow> js_error + 'a list" where
  "insert_by compare x [] = Inr [x]"
| "insert_by compare x (y # ys) =
     (case compare x y of
        Inl e \<Rightarrow> Inl e
      | Inr c \<Rightarrow>
          if c \<le> 0 then Inr (x # y # ys)
          else (case insert_by compare x ys of Inl e \<Rightarrow> Inl e | Inr zs \<Rightarrow> Inr (y # zs)))"

fun sort_by :: "('a \<Rightarrow> 'a \<Rightarrow> js_error + int) \<Rightarrow> 'a list \<Rightarrow> js_error + 'a list" where
  "sort_by compare [] = Inr []"
| "sort_by compare (x # xs) =
     (case sort_by compare xs of Inl e \<Rightarrow> Inl e | Inr ys \<Rightarrow> insert_by compare x ys)"

definition toSorted :: "(json \<Rightarrow> json \<Rightarrow> js_error + int) \<Rightarrow> jsval list \<Rightarrow> js_error + jsval list" where
  "toSorted compare xs =
     (case sort_by compare (concat (map (\<lambda>x. case x of None \<Rightarrow> [] | Some v \<Rightarrow> [v]) xs)) of
        Inl e \<Rightarrow> Inl e
      | Inr ys \<Rightarrow> Inr (map Some ys @ filter (\<lambda>x. x = None) xs))"

record filter_values =
  products :: "jsval list"
  platforms :: "jsval list"
  channels :: "jsval list"

text \<open>Sequencing of steps that may throw.\<close>

definition and_then :: "'e + 'a \<Rightarrow> ('a \<Rightarrow> 'e + 'b) \<Rightarrow> 'e + 'b" where
  "and_then r f = (case r of Inl e \<Rightarrow> Inl e | Inr x \<Rightarrow> f x)"

text \<open>The body of the \<^verbatim>\<open>try\<close> block of \<^verbatim>\<open>getInitialFilterValues\<close> after the
  fetch.\<close>

definition extractFilterValues :: "host \<Rightarrow> json \<Rightarrow> js_error + filter_values" where
  "extractFilterValues h response =
     and_then (get_property (Some response) (js ''_embedded'')) (\<lambda>embedded.
     and_then (get_property embedded (js ''firmware'')) (\<lambda>firmware.
     and_then (array_map (\<lambda>fw. get_property (Some fw) (js ''product'')) firmware) (\<lambda>ps.
     and_then (array_map (\<lambda>fw. get_property (Some fw) (js ''platform'')) firmware) (\<lambda>pls.
     and_then (array_map (\<lambda>fw. get_property (Some fw) (js ''channel'')) firmware) (\<lambda>cs.
     and_then (toSorted (compareLowerCase h) (new_Set ps)) (\<lambda>sorted_products.
     and_then (toSorted (compareLowerCase h) (new_Set pls)) (\<lambda>sorted_platforms.
     and_then (toSorted (compareLowerCase h) (new_Set cs)) (\<lambda>sorted_channels.
       Inr \<lparr>products = sorted_products, platforms = sorted_platforms,
            channels = sorted_channels\<rparr>))))))))"

definition getInitialFilterValues :: "host \<Rightarrow> network \<Rightarrow> service \<Rightarrow> filter_values \<times> service" where
  "getInitialFilterValues h net s =
     (case fetchLatestFirmware net s of
        (Inl error, s') \<Rightarrow>
          (\<lparr>products = [], platforms = [], channels = []\<rparr>,
           console_error (js ''Error fetching initial filter values:'') error s')
      | (Inr response, s') \<Rightarrow>
          (case extractFilterValues h response of
             Inl error \<Rightarrow>
               (\<lparr>products = [], platforms = [], channels = []\<rparr>,
                console_error (js ''Error fetching initial filter values:'') error s')
           | Inr values \<Rightarrow> (values, s')))"

subsection \<open>The shape of a response\<close>

text \<open>What the interfaces \<^verbatim>\<open>FirmwareResponse\<close> and \<^verbatim>\<open>FirmwareItem\<close> promise of the
  value the filter values are read from: an array under \<^verbatim>\<open>_embedded.firmware\<close> whose
  elements carry strings under \<^verbatim>\<open>product\<close>, \<^verbatim>\<open>platform\<close> and \<^verbatim>\<open>channel\<close>.\<close>

definition string_field :: "jstring \<Rightarrow> json \<Rightarrow> jstring option" where
  "string_field name v =
     (case get_property (Some v) name of Inr (Some (JString s)) \<Rightarrow> Some s | _ \<Rightarrow> None)"

definition firmware_items :: "json \<Rightarrow> json list option" where
  "firmware_items response =
     (case get_property (Some response) (js ''_embedded'') of
        Inl _ \<Rightarrow> None
      | Inr embedded \<Rightarrow>
          (case get_property embedded (js ''firmware'') of
             Inr (Some (JArray items)) \<Rightarrow> Some items
           | _ \<Rightarrow> None))"

definition has_filter_fields :: "json \<Rightarrow> bool" where
  "has_filter_fields fw =
     (string_field (js ''product'') fw \<noteq> None \<and> string_field (js ''platform'') fw \<noteq> None
      \<and> string_field (js ''channel'') fw \<noteq> None)"

text \<open>What ECMAScript requires of a comparator for the order of a sort to be defined, here
  for \<^verbatim>\<open>localeCompare\<close>: any two strings are comparable, and the order is transitive.\<close>

definition consistent_comparator :: "(jstring \<Rightarrow> jstring \<Rightarrow> int) \<Rightarrow> bool" where
  "consistent_comparator compare =
     ((\<forall>a b. compare a b \<le> 0 \<or> compare b a \<le> 0)
      \<and> (\<forall>a b c. compare a b \<le> 0 \<longrightarrow> compare b c \<le> 0 \<longrightarrow> compare a c \<le> 0))"

text \<open>\<open>ps\<close> lists the values \<open>xs\<close>: each value once, in ascending order of the
  lower-cased strings.\<close>

definition lists_values :: "host \<Rightarrow> jstring list \<Rightarrow> jstring list \<Rightarrow> bool" where
  "lists_values h xs ps =
     (distinct ps \<and> set ps = set xs
      \<and> sorted_wrt (\<lambda>a b. localeCompare h (toLowerCase h a) (toLowerCase h b) \<le> 0) ps)"

subsection \<open>Presentation helpers\<close>

text \<open>\<^verbatim>\<open>Math.floor(Math.log(bytes) / Math.log(1024))\<close> for an integer \<open>bytes \<ge> 1\<close>,
  computed exactly. The quotient of the two floating-point logarithms has this floor for
  the byte counts considered below; rounding lets it reach the next integer early only
  just under \<open>1024\<^sup>5\<close>.\<close>

fun floor_log1024 :: "nat \<Rightarrow> nat" where
  "floor_log1024 n = (if n < 1024 then 0 else Suc (floor_log1024 (n div 1024)))"

declare floor_log1024.simps [simp del]

text \<open>\<^verbatim>\<open>(num / den).toFixed(1)\<close> for \<open>num \<ge> 0\<close> and \<open>den > 0\<close>: the nearest
  multiple of one tenth, the larger one when two are equally near; 46 is the point.\<close>

definition toFixed1 :: "nat \<Rightarrow> nat \<Rightarrow> jstring" where
  "toFixed1 num den =
     (let n = (20 * num + den) div (2 * den)
      in digits (n div 10) @ [46] @ digits (n mod 10))"

text \<open>\<^verbatim>\<open>formatFileSize\<close> on integers. An index outside the array reads
  \<^verbatim>\<open>undefined\<close>, which the template prints as that word; the logarithm of a negative
  number is \<^verbatim>\<open>NaN\<close>, and so is everything computed from it.\<close>

definition formatFileSize :: "int \<Rightarrow> jstring" where
  "formatFileSize bytes =
     (let sizes = [js ''B'', js ''KB'', js ''MB'', js ''GB''] in
      if bytes = 0 then js ''0 B''
      else if bytes < 0 then js ''NaN undefined''
      else
        (let i = floor_log1024 (nat bytes);
             size = toFixed1 (nat bytes) (1024 ^ i)
         in size @ js '' '' @ (if i < length sizes then sizes ! i else js ''undefined'')))"

text \<open>\<^verbatim>\<open>getChannelDisplayName\<close>: \<^verbatim>\<open>charAt(0)\<close> is the first code unit, if any, and
  \<^verbatim>\<open>slice(1)\<close> the rest.\<close>

definition getChannelDisplayName :: "host \<Rightarrow> jstring \<Rightarrow> jstring" where
  "getChannelDisplayName h channel_name =
     (if channel_name = js ''release'' then js ''Official''
      else if channel_name = js ''beta-public'' then js ''Beta''
      else if channel_name = js ''beta'' then js ''Beta''
      else if channel_name = js ''alpha'' then js ''Alpha''
      else toUpperCase h (take 1 channel_name) @ drop 1 channel_name)"

subsection \<open>Concrete situations\<close>

text \<open>The service as \<^verbatim>\<open>new FirmwareService()\<close> leaves it, and a remote side that
  answers every URL with one JSON response.\<close>

definition fresh_service :: service where
  "fresh_service = \<lparr>cache = Map.empty, requests = [], console = []\<rparr>"

definition json_response :: "nat \<Rightarrow> jstring \<Rightarrow> json \<Rightarrow> network" where
  "json_response code text body =
     (\<lambda>url. Inr \<lparr>status = code, statusText = text, json_body = Inr body\<rparr>)"

definition no_filters :: FirmwareFilters where
  "no_filters = \<lparr>product = None, platform = None, channel = None, version = None,
                  limit = None, offset = None, sort_param = None\<rparr>"

text \<open>An engine for the examples: the case conversions of the ASCII letters, and the order
  of the code units as collation. The examples stay within ASCII letters and safe
  integers, where every engine gives these results.\<close>

definition ascii_upper :: "code_unit \<Rightarrow> code_unit" where
  "ascii_upper u = (if 97 \<le> u \<and> u \<le> 122 then u - 32 else u)"

definition ascii_lower :: "code_unit \<Rightarrow> code_unit" where
  "ascii_lower u = (if 65 \<le> u \<and> u \<le> 90 then u + 32 else u)"

definition ascii_host :: host where
  "ascii_host =
     \<lparr>toUpperCase = map ascii_upper,
      toLowerCase = map ascii_lower,
      localeCompare = (\<lambda>a b. if a < b then - 1 else if a = b then 0 else 1),
      number_repr = (\<lambda>q. [])\<rparr>"

text \<open>A \<^verbatim>\<open>firmware-latest\<close> document whose items have the products B, a and C.\<close>

definition example_latest :: json where
  "example_latest =
     JObject [(js ''_embedded'', JObject [(js ''firmware'', JArray
       [JObject [(js ''product'', JString (js ''B'')), (js ''platform'', JString (js ''s5l'')),
                 (js ''channel'', JString (js ''release''))],
        JObject [(js ''product'', JString (js ''a'')), (js ''platform'', JString (js ''S5L'')),
                 (js ''channel'', JString (js ''release''))],
        JObject [(js ''product'', JString (js ''C'')), (js ''platform'', JString (js ''s5l'')),
                 (js ''channel'', JString (js ''beta''))]])])]"

section \<open>Properties of the cached fetch\<close>

lemma cachedFetch_hit:
  "truthy (getCached s url) \<Longrightarrow> cachedFetch net url s = (Inr (getCached s url), s)"
  by (simp add: cachedFetch_def getCacheKey_def)

text \<open>A value that is truthy is served from the cache from then on, whatever the remote
  side answers later, and no request is made.\<close>

lemma cachedFetch_truthy_idempotent:
  assumes "cachedFetch net1 url s = (Inr v, s')" and "truthy v"
  shows "cachedFetch net2 url s' = (Inr v, s')"
proof -
  from assms have "getCached s' url = v"
    by (auto simp: cachedFetch_def getCacheKey_def setCache_def getCached_def Let_def
             split: if_splits sum.splits option.splits)
  with assms(2) show ?thesis
    by (simp add: cachedFetch_hit)
qed

text \<open>
  Claim C1 (cache idempotence) asks that after a first successful \<^verbatim>\<open>cachedFetch\<close> of a
  URL a second call for the same URL makes no network request and returns an equal value.
  The cache test is \<^verbatim>\<open>if (cached)\<close> on \<^verbatim>\<open>this.cache.get(key) || null\<close>, so a
  stored value that is falsy counts as absent. On a fresh service, with a remote side that
  answers \<^verbatim>\<open>200 OK\<close> with the body \<^verbatim>\<open>null\<close>, the first call succeeds with
  \<^verbatim>\<open>null\<close>; the second call for the same URL goes to the network again (two requests
  are logged) and returns what the remote side answers then, here \<^verbatim>\<open>{}\<close>.
\<close>

theorem cachedFetch_falsy_value_fetched_again:
  "fst (cachedFetch (json_response 200 (js ''OK'') JNull)
          (js ''https://fw-update.ubnt.com/api/firmware/abc'') fresh_service)
     = Inr JNull
   \<and> fst (cachedFetch (json_response 200 (js ''OK'') (JObject []))
             (js ''https://fw-update.ubnt.com/api/firmware/abc'')
             (snd (cachedFetch (json_response 200 (js ''OK'') JNull)
                     (js ''https://fw-update.ubnt.com/api/firmware/abc'') fresh_service)))
     = Inr (JObject [])
   \<and> requests (snd (cachedFetch (json_response 200 (js ''OK'') (JObject []))
             (js ''https://fw-update.ubnt.com/api/firmware/abc'')
             (snd (cachedFetch (json_response 200 (js ''OK'') JNull)
                     (js ''https://fw-update.ubnt.com/api/firmware/abc'') fresh_service))))
     = [js ''https://fw-update.ubnt.com/api/firmware/abc'',
        js ''https://fw-update.ubnt.com/api/firmware/abc'']"
  by (simp add: cachedFetch_def getCacheKey_def getCached_def setCache_def ok_def
                json_response_def fresh_service_def Let_def)

text \<open>When the call fails: on a cache miss, a rejected request and a response whose status
  is not a success both end in an error.\<close>

lemma cachedFetch_miss_failure:
  assumes "\<not> truthy (getCached s url)"
      and "net url = Inl e \<or> (\<exists>r. net url = Inr r \<and> \<not> ok r)"
  shows "\<exists>err. cachedFetch net url s = (Inl err, s\<lparr>requests := requests s @ [url]\<rparr>)"
  using assms
  by (auto simp: cachedFetch_def getCacheKey_def Let_def split: sum.splits)

text \<open>
  Claim C5 (no negative caching): when a \<^verbatim>\<open>cachedFetch\<close> call for a URL fails, the cache
  is left as it was, exactly one request for the URL was made, and the next call for the
  same URL, whatever the remote side answers then, makes the request again.
\<close>

theorem cachedFetch_failure_not_cached:
  assumes "cachedFetch net url s = (Inl e, s')"
  shows "cache s' = cache s
         \<and> requests s' = requests s @ [url]
         \<and> requests (snd (cachedFetch net2 url s')) = requests s @ [url, url]"
  using assms
  by (auto simp: cachedFetch_def getCacheKey_def getCached_def setCache_def Let_def
           split: if_splits sum.splits option.splits)

theorem cachedFetch_failure_not_cached_witness:
  "cachedFetch (json_response 500 (js ''Internal Server Error'') JNull) (js ''u'') fresh_service
     = (Inl (Error (js ''Failed to fetch: 500 Internal Server Error'')),
        fresh_service\<lparr>requests := [js ''u'']\<rparr>)
   \<and> cache (fresh_service\<lparr>requests := [js ''u'']\<rparr>) = cache fresh_service
   \<and> requests (snd (cachedFetch (json_response 200 (js ''OK'') (JObject [])) (js ''u'')
                       (fresh_service\<lparr>requests := [js ''u'']\<rparr>))) = [js ''u'', js ''u'']"
proof -
  have run: "cachedFetch (json_response 500 (js ''Internal Server Error'') JNull) (js ''u'')
               fresh_service
     = (Inl (Error (js ''Failed to fetch: 500 Internal Server Error'')),
        fresh_service\<lparr>requests := [js ''u'']\<rparr>)"
    by (simp add: cachedFetch_def getCacheKey_def getCached_def ok_def json_response_def
                  fresh_service_def digits.simps digit_char_def Let_def js_def)
  from cachedFetch_failure_not_cached
         [OF run, of "json_response 200 (js ''OK'') (JObject [])"] run
  show ?thesis by (simp add: fresh_service_def)
qed

section \<open>Lookup by identifier\<close>

lemma str_includes_prefix: "str_includes (sub @ rest) sub"
proof (cases "sub @ rest")
  case Nil
  then show ?thesis by simp
next
  case (Cons c cs)
  have "take (length sub) (sub @ rest) = sub" by simp
  with Cons show ?thesis by simp
qed

lemma str_includes_append: "str_includes (before @ sub @ rest) sub"
proof (induction before)
  case Nil
  show ?case using str_includes_prefix by simp
next
  case (Cons c cs)
  then show ?case by simp
qed

text \<open>A response with status 404 is turned into \<^verbatim>\<open>null\<close>.\<close>

lemma getFirmwareById_404_null:
  assumes "\<not> truthy (getCached s (baseUrl @ firmwareEndpoint @ js ''/'' @ ident))"
      and "net (baseUrl @ firmwareEndpoint @ js ''/'' @ ident) = Inr r"
      and "status r = 404"
  shows "fst (getFirmwareById ident net s) = Inr JNull"
proof -
  have d: "digits 404 = js ''404''"
    by (simp add: digits.simps digit_char_def js_def)
  have inc: "str_includes (js ''Failed to fetch: '' @ js ''404'' @ js '' '' @ statusText r)
               (js ''404'')"
    by (rule str_includes_append)
  show ?thesis
    using assms inc
    by (simp add: getFirmwareById_def cachedFetch_def getCacheKey_def ok_def Let_def d)
qed

text \<open>An error whose message does not contain the text 404 reaches the caller.\<close>

lemma getFirmwareById_propagates:
  assumes "cachedFetch net (baseUrl @ firmwareEndpoint @ js ''/'' @ ident) s = (Inl e, s')"
      and "\<not> str_includes (message e) (js ''404'')"
  shows "fst (getFirmwareById ident net s) = Inl e"
  using assms by (simp add: getFirmwareById_def Let_def)

text \<open>
  Claim C2 (404 to null) asks that \<^verbatim>\<open>getFirmwareById\<close> returns \<^verbatim>\<open>null\<close> for the
  status 404 and lets every other failure reach the caller. The handler, commented
  "Handle 404 specially", tests \<^verbatim>\<open>error.message.includes("404")\<close> on the message
  \<^verbatim>\<open>Failed to fetch: <status> <statusText>\<close>, so the reason phrase of the server is searched
  too: a response \<^verbatim>\<open>500 Backend returned 404\<close> gives \<^verbatim>\<open>null\<close> and no error.
\<close>

theorem getFirmwareById_500_reason_with_404_is_null:
  "fst (getFirmwareById (js ''abc'') (json_response 500 (js ''Backend returned 404'') JNull)
          fresh_service)
     = Inr JNull"
  by (simp add: getFirmwareById_def cachedFetch_def getCacheKey_def getCached_def ok_def
                json_response_def fresh_service_def Let_def digits.simps digit_char_def
                baseUrl_def firmwareEndpoint_def js_def)

section \<open>Filter values for the page\<close>

text \<open>The operation has no error result: it returns the three empty lists, or what the
  extraction computed from a fetched response.\<close>

lemma getInitialFilterValues_total:
  "fst (getInitialFilterValues h net s)
     = \<lparr>products = [], platforms = [], channels = []\<rparr>
   \<or> (\<exists>response. fst (fetchLatestFirmware net s) = Inr response
         \<and> extractFilterValues h response = Inr (fst (getInitialFilterValues h net s)))"
  by (cases "fetchLatestFirmware net s")
     (auto simp: getInitialFilterValues_def split: sum.splits)

text \<open>
  Claim C6 (silent degradation): whenever the fetch of the latest firmware fails, with any
  error, \<^verbatim>\<open>getInitialFilterValues\<close> returns the three empty lists. Its result is a plain
  value, so no error leaves it.
\<close>

theorem getInitialFilterValues_swallows_failure:
  assumes "fst (fetchLatestFirmware net s) = Inl e"
  shows "fst (getInitialFilterValues h net s)
           = \<lparr>products = [], platforms = [], channels = []\<rparr>"
  using assms
  by (cases "fetchLatestFirmware net s") (simp add: getInitialFilterValues_def)

theorem getInitialFilterValues_swallows_failure_witness:
  "fst (fetchLatestFirmware (\<lambda>url. Inl (TypeError (js ''Failed to fetch''))) fresh_service)
     = Inl (TypeError (js ''Failed to fetch''))
   \<and> fst (getInitialFilterValues ascii_host (\<lambda>url. Inl (TypeError (js ''Failed to fetch'')))
            fresh_service)
     = \<lparr>products = [], platforms = [], channels = []\<rparr>"
proof -
  have run: "fst (fetchLatestFirmware (\<lambda>url. Inl (TypeError (js ''Failed to fetch'')))
                    fresh_service)
     = Inl (TypeError (js ''Failed to fetch''))"
    by (simp add: fetchLatestFirmware_def cachedFetch_def getCacheKey_def getCached_def
                  fresh_service_def Let_def)
  from getInitialFilterValues_swallows_failure [OF run, of ascii_host] run
  show ?thesis by simp
qed

section \<open>Presentation helpers\<close>

lemma floor_log1024_less:
  "n < 1024 ^ Suc k \<Longrightarrow> floor_log1024 n \<le> k"
proof (induction k arbitrary: n)
  case 0
  then show ?case by (simp add: floor_log1024.simps)
next
  case (Suc k)
  show ?case
  proof (cases "n < 1024")
    case True
    then show ?thesis by (simp add: floor_log1024.simps)
  next
    case False
    from Suc.prems have "n div 1024 < 1024 ^ Suc k"
      by (simp add: less_mult_imp_div_less mult.commute)
    then have "floor_log1024 (n div 1024) \<le> k" by (rule Suc.IH)
    with False show ?thesis by (simp add: floor_log1024.simps [of n])
  qed
qed

text \<open>Below \<open>1024\<^sup>4\<close> bytes the label is one of the four units.\<close>

lemma formatFileSize_unit:
  assumes "0 < bytes" and "bytes < 1024 ^ 4"
  shows "\<exists>unit \<in> {js ''B'', js ''KB'', js ''MB'', js ''GB''}.
           formatFileSize bytes
             = toFixed1 (nat bytes) (1024 ^ floor_log1024 (nat bytes)) @ js '' '' @ unit"
proof -
  from assms have "nat bytes < 1024 ^ Suc 3" by (simp add: nat_less_iff)
  then have "floor_log1024 (nat bytes) \<le> 3" by (rule floor_log1024_less)
  then have "floor_log1024 (nat bytes) \<in> {0, 1, 2, 3}" by auto
  with assms(1) show ?thesis
    by (auto simp: formatFileSize_def Let_def)
qed

lemma formatFileSize_examples:
  "formatFileSize 0 = js ''0 B''"
  "formatFileSize 1024 = js ''1.0 KB''"
  "formatFileSize 1536 = js ''1.5 KB''"
  by (simp_all add: formatFileSize_def floor_log1024.simps toFixed1_def digits.simps
                    digit_char_def js_def)

text \<open>
  Claim C8 (byte formatting) asks for a unit label from B, KB, MB, GB for every
  non-negative byte count. The index \<^verbatim>\<open>i\<close> is not limited to the four entries of
  \<^verbatim>\<open>sizes\<close>: from \<open>1024\<^sup>4\<close> bytes on, \<^verbatim>\<open>sizes[i]\<close> is \<^verbatim>\<open>undefined\<close> and the
  template prints that word. Two tebibytes are formatted as \<^verbatim>\<open>2.0 undefined\<close>.
\<close>

theorem formatFileSize_two_tebibytes:
  "formatFileSize 2199023255552 = js ''2.0 undefined''"
  by (simp add: formatFileSize_def floor_log1024.simps toFixed1_def digits.simps digit_char_def
                js_def)

section \<open>The query string\<close>

text \<open>The URL encoding never prints an equals sign (61).\<close>

lemma hex_char_no_equals: "hex_char n \<noteq> 61"
  by (simp add: hex_char_def)

lemma urlencode_byte_no_equals: "61 \<notin> set (urlencode_byte b)"
  using hex_char_no_equals [of "b div 16"] hex_char_no_equals [of "b mod 16"]
  by (simp add: urlencode_byte_def urlencoded_plain_def)

lemma urlencode_no_equals: "61 \<notin> set (urlencode s)"
  using urlencode_byte_no_equals by (auto simp: urlencode_def)

lemma urlencode_keys:
  "urlencode (js ''limit'') = js ''limit''"
  "urlencode (js ''offset'') = js ''offset''"
  "urlencode (js ''sort'') = js ''sort''"
  by (simp_all add: urlencode_def js_def is_lead_surrogate_def is_trail_surrogate_def
                    utf8_bytes_def urlencode_byte_def urlencoded_plain_def)

lemma js_literals:
  "js ''limit'' @ js ''='' = js ''limit=''"
  "js ''&'' @ js ''offset'' @ js ''='' = js ''&offset=''"
  "js ''&'' @ js ''sort'' @ js ''='' = js ''&sort=''"
  by (simp_all add: js_def)

text \<open>The three standard parameters as \<^verbatim>\<open>buildQueryParams\<close> prints them.\<close>

lemma number_or_value:
  "number_or v d = JNumber (case v of None \<Rightarrow> d | Some n \<Rightarrow> if truthy_number n then n else d)"
  by (simp add: number_or_def split: option.splits)

lemma standard_params:
  "buildQueryParams h
     [(js ''limit'', Some (number_or (limit filters) (Finite 50))),
      (js ''offset'', Some (number_or (offset filters) (Finite 0))),
      (js ''sort'', map_option JString (sort_param filters))]
   = js ''limit=''
     @ urlencode (Number_toString h
         (case limit filters of None \<Rightarrow> Finite 50
          | Some n \<Rightarrow> if truthy_number n then n else Finite 50))
     @ js ''&offset=''
     @ urlencode (Number_toString h
         (case offset filters of None \<Rightarrow> Finite 0
          | Some n \<Rightarrow> if truthy_number n then n else Finite 0))
     @ (case sort_param filters of
          None \<Rightarrow> []
        | Some v \<Rightarrow> if v = [] then [] else js ''&sort='' @ urlencode v)"
proof (cases "sort_param filters")
  case None
  then show ?thesis
    by (simp add: buildQueryParams_def URLSearchParams_toString_def number_or_value
                  urlencode_keys js_literals [symmetric])
next
  case (Some v)
  then show ?thesis
    by (simp add: buildQueryParams_def URLSearchParams_toString_def number_or_value
                  urlencode_keys js_literals [symmetric])
qed

lemma js_nonempty: "s \<noteq> [] \<Longrightarrow> js s \<noteq> []"
  by (simp add: js_def)

lemma standard_params_nonempty:
  "buildQueryParams h
     [(js ''limit'', Some (number_or (limit filters) (Finite 50))),
      (js ''offset'', Some (number_or (offset filters) (Finite 0))),
      (js ''sort'', map_option JString (sort_param filters))] \<noteq> []"
  by (simp only: standard_params) (simp add: js_def)

lemma firmwareQueryString_parts:
  "firmwareQueryString h filters conditions =
     (if buildFilterQuery (firmwareConditions filters conditions) = [] then []
      else buildFilterQuery (firmwareConditions filters conditions) @ js ''&'')
     @ js ''limit=''
     @ urlencode (Number_toString h
         (case limit filters of None \<Rightarrow> Finite 50
          | Some n \<Rightarrow> if truthy_number n then n else Finite 50))
     @ js ''&offset=''
     @ urlencode (Number_toString h
         (case offset filters of None \<Rightarrow> Finite 0
          | Some n \<Rightarrow> if truthy_number n then n else Finite 0))
     @ (case sort_param filters of
          None \<Rightarrow> []
        | Some v \<Rightarrow> if v = [] then [] else js ''&sort='' @ urlencode v)"
  using standard_params_nonempty [of h filters]
  by (simp add: firmwareQueryString_def Let_def standard_params del: append_assoc)

lemma firmwareUrl_shape:
  "firmwareUrl h filters conditions =
     baseUrl @ firmwareEndpoint @ js ''?'' @ firmwareQueryString h filters conditions"
  using standard_params_nonempty [of h filters]
  by (simp add: firmwareUrl_def firmwareQueryString_def Let_def)

text \<open>
  With no filter at all, so with \<^verbatim>\<open>limit\<close>, \<^verbatim>\<open>offset\<close> and \<^verbatim>\<open>sort\<close> unset, the URL
  built by \<^verbatim>\<open>fetchFirmware\<close> still carries \<^verbatim>\<open>limit=50\<close> and \<^verbatim>\<open>offset=0\<close>:
  \<^verbatim>\<open>filters.limit || 50\<close> and \<^verbatim>\<open>filters.offset || 0\<close> always hand a number to
  \<^verbatim>\<open>buildQueryParams\<close>, which skips only \<^verbatim>\<open>undefined\<close>, \<^verbatim>\<open>null\<close> and the empty
  string.
\<close>

theorem firmwareUrl_unset_limit_offset_sent:
  "limit no_filters = None \<and> offset no_filters = None \<and> sort_param no_filters = None
   \<and> firmwareUrl ascii_host no_filters []
       = js ''https://fw-update.ubnt.com/api/firmware?limit=50&offset=0''
   \<and> str_includes (firmwareUrl ascii_host no_filters []) (js ''limit=50'')
   \<and> str_includes (firmwareUrl ascii_host no_filters []) (js ''offset=0'')"
proof -
  have u: "firmwareUrl ascii_host no_filters []
             = js ''https://fw-update.ubnt.com/api/firmware?limit=50&offset=0''"
    by (simp add: firmwareUrl_shape firmwareQueryString_parts no_filters_def
                  firmwareConditions_def buildFilterQuery_def baseUrl_def firmwareEndpoint_def
                  is_safe_integer_def int_toString_def digits.simps digit_char_def
                  urlencode_def is_lead_surrogate_def is_trail_surrogate_def
                  utf8_bytes_def urlencode_byte_def urlencoded_plain_def js_def)
  show ?thesis
    by (simp add: u) (simp add: no_filters_def js_def)
qed

text \<open>
  Claim C3, amended: for every filters argument and every list of additional conditions, the
  URL of \<^verbatim>\<open>fetchFirmware\<close> always carries \<^verbatim>\<open>limit\<close> and \<^verbatim>\<open>offset\<close>, after the
  filter conditions: \<^verbatim>\<open>limit\<close> is the given number as \<^verbatim>\<open>toString\<close> prints it, or 50
  when it is unset, zero or not-a-number, and \<^verbatim>\<open>offset\<close> likewise with 0 in place of
  50; \<^verbatim>\<open>sort\<close> follows only when it is present and not the empty string. All three
  values are URL-encoded.
\<close>

theorem firmwareUrl_standard_parameters:
  "firmwareUrl h filters conditions =
     baseUrl @ firmwareEndpoint @ js ''?''
     @ (if buildFilterQuery (firmwareConditions filters conditions) = [] then []
        else buildFilterQuery (firmwareConditions filters conditions) @ js ''&'')
     @ js ''limit=''
     @ urlencode (Number_toString h
         (case limit filters of None \<Rightarrow> Finite 50
          | Some n \<Rightarrow> if truthy_number n then n else Finite 50))
     @ js ''&offset=''
     @ urlencode (Number_toString h
         (case offset filters of None \<Rightarrow> Finite 0
          | Some n \<Rightarrow> if truthy_number n then n else Finite 0))
     @ (case sort_param filters of
          None \<Rightarrow> []
        | Some v \<Rightarrow> if v = [] then [] else js ''&sort='' @ urlencode v)"
  by (simp only: firmwareUrl_shape firmwareQueryString_parts)

theorem firmwareUrl_standard_parameters_witness:
  "firmwareUrl ascii_host
     (no_filters\<lparr>product := Some (js ''G4 Pro''), limit := Some (Finite 10000),
                 sort_param := Some (js ''-created'')\<rparr>) []
     = js ''https://fw-update.ubnt.com/api/firmware?filter=eq~~product~~G4 Pro&limit=10000&offset=0&sort=-created''
   \<and> firmwareUrl ascii_host
       (no_filters\<lparr>limit := Some NaN, offset := Some (Finite 0), sort_param := Some []\<rparr>) []
     = js ''https://fw-update.ubnt.com/api/firmware?limit=50&offset=0''
   \<and> firmwareUrl ascii_host
       (no_filters\<lparr>limit := Some PosInfinity, offset := Some (Finite 20),
                   sort_param := Some (js ''a b'')\<rparr>) []
     = js ''https://fw-update.ubnt.com/api/firmware?limit=Infinity&offset=20&sort=a+b''"
  using firmwareUrl_standard_parameters
          [of ascii_host
              "no_filters\<lparr>product := Some (js ''G4 Pro''), limit := Some (Finite 10000),
                           sort_param := Some (js ''-created'')\<rparr>" "[]"]
        firmwareUrl_standard_parameters
          [of ascii_host
              "no_filters\<lparr>limit := Some NaN, offset := Some (Finite 0),
                           sort_param := Some []\<rparr>" "[]"]
        firmwareUrl_standard_parameters
          [of ascii_host
              "no_filters\<lparr>limit := Some PosInfinity, offset := Some (Finite 20),
                           sort_param := Some (js ''a b'')\<rparr>" "[]"]
  by (simp add: no_filters_def firmwareConditions_def buildFilterQuery_def
                condition_fragment_def baseUrl_def
                firmwareEndpoint_def is_safe_integer_def int_toString_def digits.simps
                digit_char_def urlencode_def is_lead_surrogate_def is_trail_surrogate_def
                utf8_bytes_def urlencode_byte_def urlencoded_plain_def js_def)

text \<open>A string that contains \<^verbatim>\<open>filter=\<close> has an \<open>r\<close> (114) directly before an equals
  sign (61).\<close>

lemma has_pair_Cons:
  "has_pair x y (c # cs) = ((cs \<noteq> [] \<and> c = x \<and> hd cs = y) \<or> has_pair x y cs)"
  by (cases cs) auto

lemma has_pair_append:
  "has_pair x y (a @ b) =
     (has_pair x y a \<or> has_pair x y b \<or> (a \<noteq> [] \<and> b \<noteq> [] \<and> last a = x \<and> hd b = y))"
proof (induction a)
  case Nil
  show ?case by simp
next
  case (Cons c cs)
  show ?case
  proof (cases cs)
    case Nil
    then show ?thesis by (auto simp: has_pair_Cons [of x y c b])
  next
    case (Cons d ds)
    with Cons.IH show ?thesis
      by (simp add: has_pair_Cons [of x y c "d # ds @ b"] has_pair_Cons [of x y c "d # ds"])
  qed
qed

lemma has_pair_absent: "y \<notin> set s \<Longrightarrow> \<not> has_pair x y s"
  by (induction x y s rule: has_pair.induct) auto

lemma str_includes_filter_pair:
  "str_includes s (js ''filter='') \<Longrightarrow> has_pair 114 61 s"
proof (induction s)
  case Nil
  then show ?case by (simp add: js_def)
next
  case (Cons c cs)
  from Cons.prems
  have "take (length (js ''filter='')) (c # cs) = js ''filter=''
        \<or> str_includes cs (js ''filter='')"
    by (simp only: str_includes.simps)
  then show ?case
  proof
    assume t: "take (length (js ''filter='')) (c # cs) = js ''filter=''"
    from t append_take_drop_id [of "length (js ''filter='')" "c # cs"]
    obtain rest where "c # cs = js ''filter='' @ rest" by metis
    moreover have "has_pair 114 61 (js ''filter='' @ rest)"
      by (simp only: has_pair_append) (simp add: js_def)
    ultimately show ?thesis by simp
  next
    assume "str_includes cs (js ''filter='')"
    then have "has_pair 114 61 cs" by (rule Cons.IH)
    then show ?thesis by (simp add: has_pair_Cons [of _ _ c cs])
  qed
qed

lemma no_filter_fragment:
  "\<not> str_includes
       (js ''https://fw-update.ubnt.com/api/firmware?limit='' @ urlencode a
        @ js ''&offset='' @ urlencode b
        @ (case s of None \<Rightarrow> [] | Some v \<Rightarrow> if v = [] then [] else js ''&sort='' @ urlencode v))
       (js ''filter='')"
proof
  assume "str_includes
       (js ''https://fw-update.ubnt.com/api/firmware?limit='' @ urlencode a
        @ js ''&offset='' @ urlencode b
        @ (case s of None \<Rightarrow> [] | Some v \<Rightarrow> if v = [] then [] else js ''&sort='' @ urlencode v))
       (js ''filter='')"
  then have p: "has_pair 114 61
       (js ''https://fw-update.ubnt.com/api/firmware?limit='' @ urlencode a
        @ js ''&offset='' @ urlencode b
        @ (case s of None \<Rightarrow> [] | Some v \<Rightarrow> if v = [] then [] else js ''&sort='' @ urlencode v))"
    by (rule str_includes_filter_pair)
  have ne: "\<And>v. \<not> has_pair 114 61 (urlencode v)"
    by (rule has_pair_absent) (rule urlencode_no_equals)
  have l0: "\<not> has_pair 114 61 (js ''https://fw-update.ubnt.com/api/firmware?limit='')"
           "last (js ''https://fw-update.ubnt.com/api/firmware?limit='') = 61"
           "js ''https://fw-update.ubnt.com/api/firmware?limit='' \<noteq> []"
    by (simp_all add: js_def)
  have l1: "\<not> has_pair 114 61 (js ''&offset='')" "last (js ''&offset='') = 61"
           "hd (js ''&offset='') = 38" "js ''&offset='' \<noteq> []"
    by (simp_all add: js_def)
  have l2: "\<not> has_pair 114 61 (js ''&sort='')" "last (js ''&sort='') = 61"
           "hd (js ''&sort='') = 38" "js ''&sort='' \<noteq> []"
    by (simp_all add: js_def)
  show False
  proof (cases "s = None \<or> s = Some []")
    case True
    with p have "has_pair 114 61
       (js ''https://fw-update.ubnt.com/api/firmware?limit='' @ urlencode a
        @ js ''&offset='' @ urlencode b)"
      by auto
    then show False
      using ne l0 l1 by (simp add: has_pair_append hd_append)
  next
    case False
    then obtain v where "s = Some v" "v \<noteq> []" by (cases s) auto
    with p have "has_pair 114 61
       (js ''https://fw-update.ubnt.com/api/firmware?limit='' @ urlencode a
        @ js ''&offset='' @ urlencode b @ js ''&sort='' @ urlencode v)"
      by simp
    then show False
      using ne l0 l1 l2 by (simp add: has_pair_append hd_append)
  qed
qed

text \<open>Joining non-empty pieces: the filter query, when there is one, and the parameters are
  one list of pieces.\<close>

lemma join_snoc: "xs \<noteq> [] \<Longrightarrow> join sep (xs @ [p]) = join sep xs @ sep @ p"
  by (induction sep xs rule: join.induct) simp_all

lemma join_nonempty: "xs \<noteq> [] \<Longrightarrow> hd xs \<noteq> [] \<Longrightarrow> join sep xs \<noteq> []"
  by (induction sep xs rule: join.induct) simp_all

lemma join_filter_query:
  assumes "\<And>x. x \<in> set xs \<Longrightarrow> x \<noteq> []" and "p \<noteq> []"
  shows "join sep (filter (\<lambda>x. truthy (JString x)) [join sep xs, p]) = join sep (xs @ [p])"
proof (cases xs)
  case Nil
  with assms(2) show ?thesis by simp
next
  case (Cons y ys)
  with assms(1) have n: "join sep xs \<noteq> []"
    by (intro join_nonempty) simp_all
  from Cons have "join sep (xs @ [p]) = join sep xs @ sep @ p"
    by (intro join_snoc) simp
  with n assms(2) show ?thesis by simp
qed

lemma condition_fragment_nonempty: "condition_fragment c \<noteq> []"
  by (simp add: condition_fragment_def js_def)

lemma eq_fragments:
  "condition_fragment \<lparr>cond_field = js ''product'', cond_operator = Eq, cond_value = v\<rparr>
     = js ''filter=eq~~product~~'' @ v"
  "condition_fragment \<lparr>cond_field = js ''platform'', cond_operator = Eq, cond_value = v\<rparr>
     = js ''filter=eq~~platform~~'' @ v"
  "condition_fragment \<lparr>cond_field = js ''channel'', cond_operator = Eq, cond_value = v\<rparr>
     = js ''filter=eq~~channel~~'' @ v"
  by (simp_all add: condition_fragment_def js_def)

lemma fragments_of_conditions:
  "map condition_fragment (firmwareConditions filters conditions) =
     map condition_fragment conditions
     @ (case product filters of
          None \<Rightarrow> [] | Some v \<Rightarrow> if v = [] then [] else [js ''filter=eq~~product~~'' @ v])
     @ (case platform filters of
          None \<Rightarrow> [] | Some v \<Rightarrow> if v = [] then [] else [js ''filter=eq~~platform~~'' @ v])
     @ (case channel filters of
          None \<Rightarrow> [] | Some v \<Rightarrow> if v = [] then [] else [js ''filter=eq~~channel~~'' @ v])"
  by (simp add: firmwareConditions_def eq_fragments split: option.splits)

lemma firmwareQueryString_pieces:
  "firmwareQueryString h filters conditions =
     join (js ''&'')
       (map condition_fragment (firmwareConditions filters conditions)
        @ [buildQueryParams h
             [(js ''limit'', Some (number_or (limit filters) (Finite 50))),
              (js ''offset'', Some (number_or (offset filters) (Finite 0))),
              (js ''sort'', map_option JString (sort_param filters))]])"
proof -
  have n: "\<And>x. x \<in> set (map condition_fragment (firmwareConditions filters conditions))
          \<Longrightarrow> x \<noteq> []"
    using condition_fragment_nonempty by auto
  show ?thesis
    unfolding firmwareQueryString_def buildFilterQuery_def Let_def
    using n standard_params_nonempty by (rule join_filter_query)
qed

lemma firmwareConditions_unset:
  assumes "product filters \<in> {None, Some []}"
      and "platform filters \<in> {None, Some []}"
      and "channel filters \<in> {None, Some []}"
  shows "firmwareConditions filters conditions = conditions"
  using assms by (auto simp: firmwareConditions_def)

lemma url_prefix: "baseUrl @ firmwareEndpoint @ js ''?'' @ js ''limit='' @ rest
                     = js ''https://fw-update.ubnt.com/api/firmware?limit='' @ rest"
  by (simp add: baseUrl_def firmwareEndpoint_def js_def)

text \<open>
  An additional condition with an empty value is serialized like any other: the URL then
  holds the fragment \<^verbatim>\<open>filter=like~~product~~\<close>, a filter value written as the empty
  string. \<^verbatim>\<open>buildFilterQuery\<close> prints every condition it is given; only the fields of
  the filters argument are tested before a condition is made of them.
\<close>

theorem firmwareUrl_empty_condition_serialized:
  "firmwareUrl ascii_host no_filters
     [\<lparr>cond_field = js ''product'', cond_operator = Like, cond_value = []\<rparr>]
     = js ''https://fw-update.ubnt.com/api/firmware?filter=like~~product~~&limit=50&offset=0''
   \<and> str_includes
         (firmwareUrl ascii_host no_filters
            [\<lparr>cond_field = js ''product'', cond_operator = Like, cond_value = []\<rparr>])
         (js ''filter=like~~product~~&'')"
proof -
  have u: "firmwareUrl ascii_host no_filters
     [\<lparr>cond_field = js ''product'', cond_operator = Like, cond_value = []\<rparr>]
     = js ''https://fw-update.ubnt.com/api/firmware?filter=like~~product~~&limit=50&offset=0''"
    by (simp add: firmwareUrl_shape firmwareQueryString_parts no_filters_def
                  firmwareConditions_def buildFilterQuery_def condition_fragment_def
                  baseUrl_def firmwareEndpoint_def
                  is_safe_integer_def int_toString_def digits.simps digit_char_def
                  urlencode_def is_lead_surrogate_def is_trail_surrogate_def
                  utf8_bytes_def urlencode_byte_def urlencoded_plain_def js_def)
  show ?thesis
    by (simp add: u) (simp add: js_def)
qed

text \<open>
  Claim C4, amended: when each of product, platform and channel is unset or the empty
  string and there is no additional condition, the URL of \<^verbatim>\<open>fetchFirmware\<close> consists
  of the endpoint, \<^verbatim>\<open>limit\<close>, \<^verbatim>\<open>offset\<close> and, when one is given, \<^verbatim>\<open>sort\<close>, and the
  text \<^verbatim>\<open>filter=\<close> does not occur in it. In general the query string is, joined by
  \<^verbatim>\<open>&\<close>: one fragment for each additional condition, printed as given, also with an
  empty value; then one \<^verbatim>\<open>eq\<close> fragment for each of product, platform and channel
  that is present and not the empty string, and none for one that is unset or empty; then
  the standard parameters.
\<close>

theorem firmwareUrl_filter_fragments:
  "firmwareUrl h filters conditions =
     baseUrl @ firmwareEndpoint @ js ''?''
     @ join (js ''&'')
         (map condition_fragment conditions
          @ (case product filters of
               None \<Rightarrow> [] | Some v \<Rightarrow> if v = [] then [] else [js ''filter=eq~~product~~'' @ v])
          @ (case platform filters of
               None \<Rightarrow> [] | Some v \<Rightarrow> if v = [] then [] else [js ''filter=eq~~platform~~'' @ v])
          @ (case channel filters of
               None \<Rightarrow> [] | Some v \<Rightarrow> if v = [] then [] else [js ''filter=eq~~channel~~'' @ v])
          @ [js ''limit=''
             @ urlencode (Number_toString h
                 (case limit filters of None \<Rightarrow> Finite 50
                  | Some n \<Rightarrow> if truthy_number n then n else Finite 50))
             @ js ''&offset=''
             @ urlencode (Number_toString h
                 (case offset filters of None \<Rightarrow> Finite 0
                  | Some n \<Rightarrow> if truthy_number n then n else Finite 0))
             @ (case sort_param filters of
                  None \<Rightarrow> []
                | Some v \<Rightarrow> if v = [] then [] else js ''&sort='' @ urlencode v)])
   \<and> (product filters \<in> {None, Some []} \<and> platform filters \<in> {None, Some []}
        \<and> channel filters \<in> {None, Some []} \<longrightarrow>
        firmwareUrl h filters [] =
          js ''https://fw-update.ubnt.com/api/firmware?limit=''
          @ urlencode (Number_toString h
              (case limit filters of None \<Rightarrow> Finite 50
               | Some n \<Rightarrow> if truthy_number n then n else Finite 50))
          @ js ''&offset=''
          @ urlencode (Number_toString h
              (case offset filters of None \<Rightarrow> Finite 0
               | Some n \<Rightarrow> if truthy_number n then n else Finite 0))
          @ (case sort_param filters of
               None \<Rightarrow> []
             | Some v \<Rightarrow> if v = [] then [] else js ''&sort='' @ urlencode v)
        \<and> \<not> str_includes (firmwareUrl h filters []) (js ''filter=''))"
proof (intro conjI impI)
  show "firmwareUrl h filters conditions =
     baseUrl @ firmwareEndpoint @ js ''?''
     @ join (js ''&'')
         (map condition_fragment conditions
          @ (case product filters of
               None \<Rightarrow> [] | Some v \<Rightarrow> if v = [] then [] else [js ''filter=eq~~product~~'' @ v])
          @ (case platform filters of
               None \<Rightarrow> [] | Some v \<Rightarrow> if v = [] then [] else [js ''filter=eq~~platform~~'' @ v])
          @ (case channel filters of
               None \<Rightarrow> [] | Some v \<Rightarrow> if v = [] then [] else [js ''filter=eq~~channel~~'' @ v])
          @ [js ''limit=''
             @ urlencode (Number_toString h
                 (case limit filters of None \<Rightarrow> Finite 50
                  | Some n \<Rightarrow> if truthy_number n then n else Finite 50))
             @ js ''&offset=''
             @ urlencode (Number_toString h
                 (case offset filters of None \<Rightarrow> Finite 0
                  | Some n \<Rightarrow> if truthy_number n then n else Finite 0))
             @ (case sort_param filters of
                  None \<Rightarrow> []
                | Some v \<Rightarrow> if v = [] then [] else js ''&sort='' @ urlencode v)])"
    by (simp only: firmwareUrl_shape firmwareQueryString_pieces fragments_of_conditions
                   standard_params append_assoc)
next
  assume a: "product filters \<in> {None, Some []} \<and> platform filters \<in> {None, Some []}
        \<and> channel filters \<in> {None, Some []}"
  then have c: "firmwareConditions filters [] = []"
    by (intro firmwareConditions_unset) simp_all
  show u: "firmwareUrl h filters [] =
          js ''https://fw-update.ubnt.com/api/firmware?limit=''
          @ urlencode (Number_toString h
              (case limit filters of None \<Rightarrow> Finite 50
               | Some n \<Rightarrow> if truthy_number n then n else Finite 50))
          @ js ''&offset=''
          @ urlencode (Number_toString h
              (case offset filters of None \<Rightarrow> Finite 0
               | Some n \<Rightarrow> if truthy_number n then n else Finite 0))
          @ (case sort_param filters of
               None \<Rightarrow> []
             | Some v \<Rightarrow> if v = [] then [] else js ''&sort='' @ urlencode v)"
    by (simp add: firmwareUrl_shape firmwareQueryString_parts c buildFilterQuery_def url_prefix)
  show "\<not> str_includes (firmwareUrl h filters []) (js ''filter='')"
    by (simp only: u no_filter_fragment not_False_eq_True)
qed

theorem firmwareUrl_filter_fragments_witness:
  "firmwareUrl ascii_host
     (no_filters\<lparr>product := Some [], platform := Some (js ''s5l'')\<rparr>)
     [\<lparr>cond_field = js ''version'', cond_operator = Like, cond_value = js ''4*''\<rparr>]
     = js ''https://fw-update.ubnt.com/api/firmware?filter=like~~version~~4*&filter=eq~~platform~~s5l&limit=50&offset=0''
   \<and> firmwareUrl ascii_host (no_filters\<lparr>product := Some [], sort_param := Some (js ''-created'')\<rparr>) []
     = js ''https://fw-update.ubnt.com/api/firmware?limit=50&offset=0&sort=-created''
   \<and> \<not> str_includes
         (firmwareUrl ascii_host
            (no_filters\<lparr>product := Some [], sort_param := Some (js ''-created'')\<rparr>) [])
         (js ''filter='')"
  using firmwareUrl_filter_fragments
          [of ascii_host "no_filters\<lparr>product := Some [], platform := Some (js ''s5l'')\<rparr>"
              "[\<lparr>cond_field = js ''version'', cond_operator = Like, cond_value = js ''4*''\<rparr>]"]
        firmwareUrl_filter_fragments
          [of ascii_host "no_filters\<lparr>product := Some [], sort_param := Some (js ''-created'')\<rparr>"
              "[]"]
  by (simp add: no_filters_def condition_fragment_def baseUrl_def firmwareEndpoint_def
                is_safe_integer_def int_toString_def digits.simps digit_char_def
                urlencode_def is_lead_surrogate_def is_trail_surrogate_def
                utf8_bytes_def urlencode_byte_def urlencoded_plain_def js_def)

section \<open>Text search\<close>

text \<open>The URL of a search begins with the fragment of the search condition.\<close>

lemma search_url:
  "\<exists>rest. firmwareUrl h filters
             [\<lparr>cond_field = js ''product'', cond_operator = Like,
               cond_value = js ''*'' @ searchTerm @ js ''*''\<rparr>]
           = js ''https://fw-update.ubnt.com/api/firmware?filter=like~~product~~*''
             @ searchTerm @ js ''*&'' @ rest"
proof -
  let ?c = "\<lparr>cond_field = js ''product'', cond_operator = Like,
             cond_value = js ''*'' @ searchTerm @ js ''*''\<rparr>"
  obtain more where m: "map condition_fragment (firmwareConditions filters [?c])
                          = condition_fragment ?c # more"
    by (simp add: firmwareConditions_def)
  have "firmwareQueryString h filters [?c]
          = join (js ''&'') (condition_fragment ?c # (more @
              [buildQueryParams h
                 [(js ''limit'', Some (number_or (limit filters) (Finite 50))),
                  (js ''offset'', Some (number_or (offset filters) (Finite 0))),
                  (js ''sort'', map_option JString (sort_param filters))]]))"
    by (simp only: firmwareQueryString_pieces m append_Cons)
  also have "\<dots> = condition_fragment ?c @ js ''&'' @ join (js ''&'') (more @
              [buildQueryParams h
                 [(js ''limit'', Some (number_or (limit filters) (Finite 50))),
                  (js ''offset'', Some (number_or (offset filters) (Finite 0))),
                  (js ''sort'', map_option JString (sort_param filters))]])"
    by (cases more) simp_all
  finally have q: "\<exists>rest. firmwareQueryString h filters [?c]
                      = condition_fragment ?c @ js ''&'' @ rest"
    by blast
  have f: "baseUrl @ firmwareEndpoint @ js ''?'' @ condition_fragment ?c @ js ''&'' @ rest
             = js ''https://fw-update.ubnt.com/api/firmware?filter=like~~product~~*''
               @ searchTerm @ js ''*&'' @ rest" for rest
    by (simp add: condition_fragment_def baseUrl_def firmwareEndpoint_def js_def)
  from q obtain rest where "firmwareQueryString h filters [?c]
                      = condition_fragment ?c @ js ''&'' @ rest"
    by blast
  then have "firmwareUrl h filters [?c]
               = js ''https://fw-update.ubnt.com/api/firmware?filter=like~~product~~*''
                 @ searchTerm @ js ''*&'' @ rest"
    by (simp only: firmwareUrl_shape f)
  then show ?thesis by blast
qed

text \<open>
  Claim C10: \<^verbatim>\<open>searchFirmware\<close> is \<^verbatim>\<open>fetchFirmware\<close> with no additional condition
  when the trimmed search term is empty, and otherwise with exactly one: \<^verbatim>\<open>like\<close> on
  the field \<^verbatim>\<open>product\<close> with the untrimmed term between two asterisks. The URL built
  for that condition begins with the fragment \<^verbatim>\<open>filter=like~~product~~*term*\<close>.
\<close>

theorem searchFirmware_conditions:
  "searchFirmware h searchTerm filters net s =
     fetchFirmware h filters
       (if trim searchTerm = [] then []
        else [\<lparr>cond_field = js ''product'', cond_operator = Like,
                cond_value = js ''*'' @ searchTerm @ js ''*''\<rparr>])
       net s
   \<and> (\<exists>rest. firmwareUrl h filters
                [\<lparr>cond_field = js ''product'', cond_operator = Like,
                  cond_value = js ''*'' @ searchTerm @ js ''*''\<rparr>]
              = js ''https://fw-update.ubnt.com/api/firmware?filter=like~~product~~*''
                @ searchTerm @ js ''*&'' @ rest)"
  using search_url [of h filters searchTerm]
  by (simp add: searchFirmware_def)

theorem searchFirmware_conditions_witness:
  "searchFirmware ascii_host [32, 160, 9] no_filters (json_response 200 (js ''OK'') (JObject []))
       fresh_service
     = fetchFirmware ascii_host no_filters [] (json_response 200 (js ''OK'') (JObject []))
         fresh_service
   \<and> searchFirmware ascii_host (js '' G4 '') no_filters
         (json_response 200 (js ''OK'') (JObject [])) fresh_service
     = fetchFirmware ascii_host no_filters
         [\<lparr>cond_field = js ''product'', cond_operator = Like, cond_value = js ''* G4 *''\<rparr>]
         (json_response 200 (js ''OK'') (JObject [])) fresh_service"
  using searchFirmware_conditions
          [of ascii_host "[32, 160, 9]" no_filters "json_response 200 (js ''OK'') (JObject [])"
              fresh_service]
        searchFirmware_conditions
          [of ascii_host "js '' G4 ''" no_filters "json_response 200 (js ''OK'') (JObject [])"
              fresh_service]
  by (simp add: trim_def is_whitespace_def js_def)

section \<open>Channel names\<close>

text \<open>
  Claim C9 (channel display names): \<^verbatim>\<open>release\<close> is shown as Official, \<^verbatim>\<open>beta\<close> and
  \<^verbatim>\<open>beta-public\<close> as Beta, \<^verbatim>\<open>alpha\<close> as Alpha, and every other string as itself with
  its first code unit put through \<^verbatim>\<open>toUpperCase\<close>; so \<^verbatim>\<open>rc\<close> is shown as Rc, since
  the upper case of r is R.
\<close>

theorem getChannelDisplayName_mapping:
  "getChannelDisplayName h c =
     (if c = js ''release'' then js ''Official''
      else if c = js ''beta'' \<or> c = js ''beta-public'' then js ''Beta''
      else if c = js ''alpha'' then js ''Alpha''
      else toUpperCase h (take 1 c) @ drop 1 c)
   \<and> getChannelDisplayName h (js ''beta-public'') = js ''Beta''
   \<and> (toUpperCase h (js ''r'') = js ''R'' \<longrightarrow> getChannelDisplayName h (js ''rc'') = js ''Rc'')"
proof (intro conjI impI)
  show "getChannelDisplayName h c =
     (if c = js ''release'' then js ''Official''
      else if c = js ''beta'' \<or> c = js ''beta-public'' then js ''Beta''
      else if c = js ''alpha'' then js ''Alpha''
      else toUpperCase h (take 1 c) @ drop 1 c)"
    by (auto simp: getChannelDisplayName_def)
  show "getChannelDisplayName h (js ''beta-public'') = js ''Beta''"
    by (simp add: getChannelDisplayName_def js_def)
  assume "toUpperCase h (js ''r'') = js ''R''"
  then show "getChannelDisplayName h (js ''rc'') = js ''Rc''"
    by (simp add: getChannelDisplayName_def js_def)
qed

theorem getChannelDisplayName_mapping_witness:
  "getChannelDisplayName ascii_host (js ''release'') = js ''Official''
   \<and> getChannelDisplayName ascii_host (js ''beta'') = js ''Beta''
   \<and> getChannelDisplayName ascii_host (js ''alpha'') = js ''Alpha''
   \<and> getChannelDisplayName ascii_host (js ''nightly'') = js ''Nightly''
   \<and> toUpperCase ascii_host (js ''r'') = js ''R''
   \<and> getChannelDisplayName ascii_host (js ''rc'') = js ''Rc''"
  using getChannelDisplayName_mapping [of ascii_host "js ''release''"]
        getChannelDisplayName_mapping [of ascii_host "js ''beta''"]
        getChannelDisplayName_mapping [of ascii_host "js ''alpha''"]
        getChannelDisplayName_mapping [of ascii_host "js ''nightly''"]
  by (simp add: ascii_host_def ascii_upper_def js_def)

section \<open>Sorted filter values\<close>

lemma get_property_string_field:
  "string_field name fw = Some v \<Longrightarrow> get_property (Some fw) name = Inr (Some (JString v))"
  by (auto simp: string_field_def split: sum.splits option.splits json.splits)

lemma map_elements_string_fields:
  "(\<And>fw. fw \<in> set items \<Longrightarrow> string_field name fw \<noteq> None) \<Longrightarrow>
   map_elements (\<lambda>fw. get_property (Some fw) name) items
     = Inr (map (\<lambda>v. Some (JString v)) (List.map_filter (string_field name) items))"
proof (induction items)
  case Nil
  show ?case by (simp add: map_filter_simps)
next
  case (Cons fw fws)
  from Cons.prems [of fw] obtain v where v: "string_field name fw = Some v" by auto
  have "map_elements (\<lambda>fw. get_property (Some fw) name) fws
     = Inr (map (\<lambda>v. Some (JString v)) (List.map_filter (string_field name) fws))"
    by (rule Cons.IH) (simp add: Cons.prems)
  then show ?case
    by (simp add: get_property_string_field [OF v] v map_filter_simps)
qed

text \<open>On strings the equality of a \<^verbatim>\<open>Set\<close> is equality, so the set keeps the first
  occurrence of each string.\<close>

lemma sameValueZero_string: "sameValueZero y (Some (JString v)) = (y = Some (JString v))"
  by (cases "(y, Some (JString v))" rule: sameValueZero.cases) auto

lemma set_add_string:
  "set_add seen (Some (JString v))
     = (if Some (JString v) \<in> set seen then seen else seen @ [Some (JString v)])"
  by (simp add: set_add_def list_ex_iff sameValueZero_string)

lemma set_add_strings:
  "set_add (map (\<lambda>v. Some (JString v)) seen) (Some (JString x))
     = map (\<lambda>v. Some (JString v)) (if x \<in> set seen then seen else seen @ [x])"
proof -
  have "(Some (JString x) \<in> set (map (\<lambda>v. Some (JString v)) seen)) = (x \<in> set seen)"
    by auto
  then show ?thesis
    by (simp only: set_add_string) simp
qed

lemma foldl_set_add_strings:
  "distinct seen \<Longrightarrow>
   \<exists>ys. foldl set_add (map (\<lambda>v. Some (JString v)) seen) (map (\<lambda>v. Some (JString v)) xs)
           = map (\<lambda>v. Some (JString v)) ys
        \<and> distinct ys \<and> set ys = set seen \<union> set xs"
proof (induction xs arbitrary: seen)
  case Nil
  then show ?case by auto
next
  case (Cons x xs)
  let ?seen = "if x \<in> set seen then seen else seen @ [x]"
  from Cons.prems have "distinct ?seen" by simp
  from Cons.IH [OF this] obtain ys where
    ys: "foldl set_add (map (\<lambda>v. Some (JString v)) ?seen) (map (\<lambda>v. Some (JString v)) xs)
           = map (\<lambda>v. Some (JString v)) ys"
      "distinct ys" "set ys = set ?seen \<union> set xs"
    by blast
  have "foldl set_add (map (\<lambda>v. Some (JString v)) seen) (map (\<lambda>v. Some (JString v)) (x # xs))
          = foldl set_add (map (\<lambda>v. Some (JString v)) ?seen) (map (\<lambda>v. Some (JString v)) xs)"
    by (simp only: list.map foldl_Cons set_add_strings)
  moreover from ys(3) have "set ys = set seen \<union> set (x # xs)" by auto
  ultimately show ?case using ys(1,2) by metis
qed

lemma new_Set_strings:
  "\<exists>ys. new_Set (map (\<lambda>v. Some (JString v)) xs) = map (\<lambda>v. Some (JString v)) ys
        \<and> distinct ys \<and> set ys = set xs"
  using foldl_set_add_strings [of "[]" xs] by (simp add: new_Set_def)

text \<open>With a consistent comparator the sort of strings never fails; it keeps the strings
  and orders them.\<close>

lemma insert_by_strings:
  assumes c: "consistent_comparator (localeCompare h)"
  shows "sorted_wrt (\<lambda>a b. localeCompare h (toLowerCase h a) (toLowerCase h b) \<le> 0) ys \<Longrightarrow>
         \<exists>zs. insert_by (compareLowerCase h) (JString x) (map JString ys)
                 = Inr (map JString zs)
              \<and> set zs = insert x (set ys)
              \<and> (x \<notin> set ys \<longrightarrow> distinct ys \<longrightarrow> distinct zs)
              \<and> sorted_wrt (\<lambda>a b. localeCompare h (toLowerCase h a) (toLowerCase h b) \<le> 0) zs"
proof (induction ys)
  case Nil
  show ?case by (rule exI [of _ "[x]"]) simp
next
  case (Cons y ys)
  let ?le = "\<lambda>a b. localeCompare h (toLowerCase h a) (toLowerCase h b) \<le> 0"
  from c have total: "\<And>a b. ?le a b \<or> ?le b a"
    and trans: "\<And>a b d. ?le a b \<Longrightarrow> ?le b d \<Longrightarrow> ?le a d"
    unfolding consistent_comparator_def by blast+
  from Cons.prems have y_le: "\<And>z. z \<in> set ys \<Longrightarrow> ?le y z" and sorted_ys: "sorted_wrt ?le ys"
    by simp_all
  show ?case
  proof (cases "?le x y")
    case True
    have "\<And>z. z \<in> set (y # ys) \<Longrightarrow> ?le x z"
      using True y_le trans by (metis set_ConsD)
    then have "sorted_wrt ?le (x # y # ys)"
      using Cons.prems by simp
    with True show ?thesis
      by (intro exI [of _ "x # y # ys"]) simp
  next
    case False
    with total [of x y] have yx: "?le y x" by blast
    from Cons.IH [OF sorted_ys] obtain zs where
      zs: "insert_by (compareLowerCase h) (JString x) (map JString ys)
             = Inr (map JString zs)"
          "set zs = insert x (set ys)"
          "x \<notin> set ys \<longrightarrow> distinct ys \<longrightarrow> distinct zs"
          "sorted_wrt ?le zs"
      by blast
    have "\<And>z. z \<in> set zs \<Longrightarrow> ?le y z"
      using zs(2) yx y_le by auto
    with zs(4) have s: "sorted_wrt ?le (y # zs)" by simp
    have d: "x \<notin> set (y # ys) \<longrightarrow> distinct (y # ys) \<longrightarrow> distinct (y # zs)"
      using zs(2,3) by auto
    have st: "set (y # zs) = insert x (set (y # ys))"
      using zs(2) by auto
    from False zs(1)
    have "insert_by (compareLowerCase h) (JString x) (map JString (y # ys))
            = Inr (map JString (y # zs))"
      by simp
    with s d st show ?thesis by blast
  qed
qed

lemma sort_by_strings:
  assumes c: "consistent_comparator (localeCompare h)"
  shows "\<exists>zs. sort_by (compareLowerCase h) (map JString xs) = Inr (map JString zs)
              \<and> set zs = set xs
              \<and> (distinct xs \<longrightarrow> distinct zs)
              \<and> sorted_wrt (\<lambda>a b. localeCompare h (toLowerCase h a) (toLowerCase h b) \<le> 0) zs"
proof (induction xs)
  case Nil
  show ?case by (rule exI [of _ "[]"]) simp
next
  case (Cons x xs)
  let ?le = "\<lambda>a b. localeCompare h (toLowerCase h a) (toLowerCase h b) \<le> 0"
  from Cons.IH obtain ys where
    ys: "sort_by (compareLowerCase h) (map JString xs) = Inr (map JString ys)"
        "set ys = set xs" "distinct xs \<longrightarrow> distinct ys" "sorted_wrt ?le ys"
    by blast
  from insert_by_strings [OF c ys(4), of x] obtain zs where
    zs: "insert_by (compareLowerCase h) (JString x) (map JString ys)
           = Inr (map JString zs)"
        "set zs = insert x (set ys)"
        "x \<notin> set ys \<longrightarrow> distinct ys \<longrightarrow> distinct zs"
        "sorted_wrt ?le zs"
    by blast
  from ys(1) zs(1)
  have "sort_by (compareLowerCase h) (map JString (x # xs)) = Inr (map JString zs)"
    by simp
  moreover have "set zs = set (x # xs)" using zs(2) ys(2) by simp
  moreover have "distinct (x # xs) \<longrightarrow> distinct zs" using zs(3) ys(2,3) by simp
  ultimately show ?case using zs(4) by blast
qed

lemma toSorted_strings:
  assumes c: "consistent_comparator (localeCompare h)" and d: "distinct xs"
  shows "\<exists>zs. toSorted (compareLowerCase h) (map (\<lambda>v. Some (JString v)) xs)
                 = Inr (map (\<lambda>v. Some (JString v)) zs)
              \<and> lists_values h xs zs"
proof -
  have defined: "concat (map (\<lambda>x. case x of None \<Rightarrow> [] | Some v \<Rightarrow> [v])
                          (map (\<lambda>v. Some (JString v)) xs)) = map JString xs"
    by (induction xs) simp_all
  have undefineds: "filter (\<lambda>x. x = None) (map (\<lambda>v. Some (JString v)) xs) = []"
    by (induction xs) simp_all
  from sort_by_strings [OF c, of xs] d obtain zs where
    zs: "sort_by (compareLowerCase h) (map JString xs) = Inr (map JString zs)"
        "set zs = set xs" "distinct zs"
        "sorted_wrt (\<lambda>a b. localeCompare h (toLowerCase h a) (toLowerCase h b) \<le> 0) zs"
    by blast
  have "toSorted (compareLowerCase h) (map (\<lambda>v. Some (JString v)) xs)
          = Inr (map (\<lambda>v. Some (JString v)) zs)"
    by (simp only: toSorted_def defined undefineds zs(1)) simp
  with zs(2,3,4) show ?thesis
    unfolding lists_values_def by blast
qed

text \<open>One of the three lists: the values of a field, made distinct and sorted.\<close>

lemma sorted_distinct_field:
  assumes c: "consistent_comparator (localeCompare h)"
      and fields: "\<And>fw. fw \<in> set items \<Longrightarrow> string_field name fw \<noteq> None"
  shows "\<exists>vs zs. array_map (\<lambda>fw. get_property (Some fw) name) (Some (JArray items)) = Inr vs
           \<and> toSorted (compareLowerCase h) (new_Set vs)
               = Inr (map (\<lambda>v. Some (JString v)) zs)
           \<and> lists_values h (List.map_filter (string_field name) items) zs"
proof -
  let ?xs = "List.map_filter (string_field name) items"
  have m: "array_map (\<lambda>fw. get_property (Some fw) name) (Some (JArray items))
             = Inr (map (\<lambda>v. Some (JString v)) ?xs)"
    using map_elements_string_fields [of items name] fields by simp
  from new_Set_strings [of ?xs] obtain ys where
    ys: "new_Set (map (\<lambda>v. Some (JString v)) ?xs) = map (\<lambda>v. Some (JString v)) ys"
        "distinct ys" "set ys = set ?xs"
    by blast
  from toSorted_strings [OF c ys(2)] obtain zs where
    zs: "toSorted (compareLowerCase h) (map (\<lambda>v. Some (JString v)) ys)
           = Inr (map (\<lambda>v. Some (JString v)) zs)"
        "lists_values h ys zs"
    by blast
  from zs(2) ys(3) have "lists_values h ?xs zs"
    by (simp add: lists_values_def)
  with m ys(1) zs(1) show ?thesis by metis
qed

lemma extractFilterValues_typed:
  assumes c: "consistent_comparator (localeCompare h)"
      and items: "firmware_items response = Some items"
      and fields: "list_all has_filter_fields items"
  shows "\<exists>ps pls cs.
           extractFilterValues h response
             = Inr \<lparr>products = map (\<lambda>v. Some (JString v)) ps,
                    platforms = map (\<lambda>v. Some (JString v)) pls,
                    channels = map (\<lambda>v. Some (JString v)) cs\<rparr>
           \<and> lists_values h (List.map_filter (string_field (js ''product'')) items) ps
           \<and> lists_values h (List.map_filter (string_field (js ''platform'')) items) pls
           \<and> lists_values h (List.map_filter (string_field (js ''channel'')) items) cs"
proof -
  from items obtain embedded where
    e: "get_property (Some response) (js ''_embedded'') = Inr embedded"
    and f: "get_property embedded (js ''firmware'') = Inr (Some (JArray items))"
    by (auto simp: firmware_items_def split: sum.splits option.splits json.splits)
  from fields have
    "\<And>fw. fw \<in> set items \<Longrightarrow> string_field (js ''product'') fw \<noteq> None"
    "\<And>fw. fw \<in> set items \<Longrightarrow> string_field (js ''platform'') fw \<noteq> None"
    "\<And>fw. fw \<in> set items \<Longrightarrow> string_field (js ''channel'') fw \<noteq> None"
    by (simp_all add: list_all_iff has_filter_fields_def)
  from sorted_distinct_field [OF c this(1)] sorted_distinct_field [OF c this(2)]
       sorted_distinct_field [OF c this(3)]
  obtain v1 ps v2 pls v3 cs where
    p1: "array_map (\<lambda>fw. get_property (Some fw) (js ''product'')) (Some (JArray items)) = Inr v1"
        "toSorted (compareLowerCase h) (new_Set v1)
           = Inr (map (\<lambda>v. Some (JString v)) ps)"
        "lists_values h (List.map_filter (string_field (js ''product'')) items) ps"
    and p2: "array_map (\<lambda>fw. get_property (Some fw) (js ''platform'')) (Some (JArray items)) = Inr v2"
        "toSorted (compareLowerCase h) (new_Set v2)
           = Inr (map (\<lambda>v. Some (JString v)) pls)"
        "lists_values h (List.map_filter (string_field (js ''platform'')) items) pls"
    and p3: "array_map (\<lambda>fw. get_property (Some fw) (js ''channel'')) (Some (JArray items)) = Inr v3"
        "toSorted (compareLowerCase h) (new_Set v3)
           = Inr (map (\<lambda>v. Some (JString v)) cs)"
        "lists_values h (List.map_filter (string_field (js ''channel'')) items) cs"
    by blast
  have "extractFilterValues h response
          = Inr \<lparr>products = map (\<lambda>v. Some (JString v)) ps,
                 platforms = map (\<lambda>v. Some (JString v)) pls,
                 channels = map (\<lambda>v. Some (JString v)) cs\<rparr>"
    by (simp only: extractFilterValues_def and_then_def e f p1(1,2) p2(1,2) p3(1,2) sum.case)
  with p1(3) p2(3) p3(3) show ?thesis by blast
qed

text \<open>
  Claim C7 (filter-value extraction): when the fetch of the latest firmware succeeds with a
  response of the declared shape, and \<^verbatim>\<open>localeCompare\<close> is a consistent comparator,
  \<^verbatim>\<open>getInitialFilterValues\<close> returns three lists of strings: the product, the platform
  and the channel values of the embedded items, each value once, each list in ascending
  order of \<^verbatim>\<open>localeCompare\<close> on the strings \<^verbatim>\<open>toLowerCase\<close> makes of them. For
  items with the products B, a, C the products are a, B, C.
\<close>

theorem getInitialFilterValues_sorted_distinct:
  assumes "consistent_comparator (localeCompare h)"
      and "fst (fetchLatestFirmware net s) = Inr response"
      and "firmware_items response = Some items"
      and "list_all has_filter_fields items"
  shows "\<exists>ps pls cs.
           fst (getInitialFilterValues h net s)
             = \<lparr>products = map (\<lambda>v. Some (JString v)) ps,
                 platforms = map (\<lambda>v. Some (JString v)) pls,
                 channels = map (\<lambda>v. Some (JString v)) cs\<rparr>
           \<and> lists_values h (List.map_filter (string_field (js ''product'')) items) ps
           \<and> lists_values h (List.map_filter (string_field (js ''platform'')) items) pls
           \<and> lists_values h (List.map_filter (string_field (js ''channel'')) items) cs"
proof -
  from extractFilterValues_typed [OF assms(1,3,4)] obtain ps pls cs where
    x: "extractFilterValues h response
             = Inr \<lparr>products = map (\<lambda>v. Some (JString v)) ps,
                    platforms = map (\<lambda>v. Some (JString v)) pls,
                    channels = map (\<lambda>v. Some (JString v)) cs\<rparr>"
    and l: "lists_values h (List.map_filter (string_field (js ''product'')) items) ps"
       "lists_values h (List.map_filter (string_field (js ''platform'')) items) pls"
       "lists_values h (List.map_filter (string_field (js ''channel'')) items) cs"
    by blast
  from assms(2) x
  have "fst (getInitialFilterValues h net s)
             = \<lparr>products = map (\<lambda>v. Some (JString v)) ps,
                 platforms = map (\<lambda>v. Some (JString v)) pls,
                 channels = map (\<lambda>v. Some (JString v)) cs\<rparr>"
    by (cases "fetchLatestFirmware net s") (simp add: getInitialFilterValues_def)
  with l show ?thesis by blast
qed

lemma ascii_host_consistent: "consistent_comparator (localeCompare ascii_host)"
  unfolding consistent_comparator_def ascii_host_def
  by (auto split: if_splits)

lemma example_latest_fetch:
  "fst (fetchLatestFirmware (json_response 200 (js ''OK'') example_latest) fresh_service)
     = Inr example_latest"
  by (simp add: fetchLatestFirmware_def cachedFetch_def getCacheKey_def getCached_def ok_def
                json_response_def fresh_service_def Let_def setCache_def)

lemma example_items:
  "firmware_items example_latest = Some
       [JObject [(js ''product'', JString (js ''B'')), (js ''platform'', JString (js ''s5l'')),
                 (js ''channel'', JString (js ''release''))],
        JObject [(js ''product'', JString (js ''a'')), (js ''platform'', JString (js ''S5L'')),
                 (js ''channel'', JString (js ''release''))],
        JObject [(js ''product'', JString (js ''C'')), (js ''platform'', JString (js ''s5l'')),
                 (js ''channel'', JString (js ''beta''))]]"
  by (simp add: firmware_items_def example_latest_def js_def)

lemma example_fields:
  "list_all has_filter_fields
       [JObject [(js ''product'', JString (js ''B'')), (js ''platform'', JString (js ''s5l'')),
                 (js ''channel'', JString (js ''release''))],
        JObject [(js ''product'', JString (js ''a'')), (js ''platform'', JString (js ''S5L'')),
                 (js ''channel'', JString (js ''release''))],
        JObject [(js ''product'', JString (js ''C'')), (js ''platform'', JString (js ''s5l'')),
                 (js ''channel'', JString (js ''beta''))]]"
  by (simp add: has_filter_fields_def string_field_def js_def)

lemma example_extract:
  "extractFilterValues ascii_host example_latest
     = Inr \<lparr>products = [Some (JString (js ''a'')), Some (JString (js ''B'')),
                         Some (JString (js ''C''))],
         platforms = [Some (JString (js ''s5l'')), Some (JString (js ''S5L''))],
         channels = [Some (JString (js ''beta'')), Some (JString (js ''release''))]\<rparr>"
  by (simp add: extractFilterValues_def and_then_def example_latest_def new_Set_def set_add_def
                toSorted_def ascii_host_def ascii_lower_def js_def)

theorem getInitialFilterValues_sorted_distinct_witness:
  "consistent_comparator (localeCompare ascii_host)
   \<and> fst (getInitialFilterValues ascii_host (json_response 200 (js ''OK'') example_latest)
            fresh_service)
     = \<lparr>products = [Some (JString (js ''a'')), Some (JString (js ''B'')),
                     Some (JString (js ''C''))],
         platforms = [Some (JString (js ''s5l'')), Some (JString (js ''S5L''))],
         channels = [Some (JString (js ''beta'')), Some (JString (js ''release''))]\<rparr>"
proof -
  have run: "fst (getInitialFilterValues ascii_host
                    (json_response 200 (js ''OK'') example_latest) fresh_service)
     = \<lparr>products = [Some (JString (js ''a'')), Some (JString (js ''B'')),
                     Some (JString (js ''C''))],
         platforms = [Some (JString (js ''s5l'')), Some (JString (js ''S5L''))],
         channels = [Some (JString (js ''beta'')), Some (JString (js ''release''))]\<rparr>"
    using example_latest_fetch
    by (cases "fetchLatestFirmware (json_response 200 (js ''OK'') example_latest) fresh_service")
       (simp add: getInitialFilterValues_def example_extract)
  from getInitialFilterValues_sorted_distinct
         [OF ascii_host_consistent example_latest_fetch example_items example_fields]
       run ascii_host_consistent
  show ?thesis by simp
qed

end
